theory Spec2Isabelle
  imports Main "HOL-Library.Log_Nat" "HOL-Library.Signed_Division"
begin

section \<open>Characters and decimal numerals\<close>

text \<open>
  Both programs (\<^verbatim>\<open>test-mem-leak-read.cpp\<close> and \<^verbatim>\<open>test-mem-leak-write.cpp\<close>) run in the
  classic "C" locale: the white space that formatted input skips is the six characters
  of \<^verbatim>\<open>isspace\<close>, and digits are the ten ASCII digits.
\<close>

definition isspace :: "char \<Rightarrow> bool" where
  "isspace c \<longleftrightarrow>
     c = CHR '' '' \<or> c = CHR 0x09 \<or> c = CHR 0x0A \<or> c = CHR 0x0B \<or> c = CHR 0x0C \<or> c = CHR 0x0D"

definition isdigit :: "char \<Rightarrow> bool" where
  "isdigit c \<longleftrightarrow> (48::nat) \<le> of_char c \<and> of_char c \<le> (57::nat)"

definition digit_val :: "char \<Rightarrow> nat" where
  "digit_val c = of_char c - 48"

definition decimal :: "string \<Rightarrow> nat" where
  "decimal ds = foldl (\<lambda>a c. 10 * a + digit_val c) 0 ds"

text \<open>\<^verbatim>\<open>std::to_string\<close> of an \<^verbatim>\<open>int\<close>, and the digits \<^verbatim>\<open>operator<<\<close> prints for one.\<close>

fun string_of_nat :: "nat \<Rightarrow> string" where
  "string_of_nat n =
     (if n < 10 then [''0123456789'' ! n]
      else string_of_nat (n div 10) @ [''0123456789'' ! (n mod 10)])"

declare string_of_nat.simps [simp del]

definition to_string :: "int \<Rightarrow> string" where
  "to_string i = (if i < 0 then CHR ''-'' # string_of_nat (nat (- i)) else string_of_nat (nat i))"

section \<open>Machine arithmetic of the sampler\<close>

text \<open>
  \<^verbatim>\<open>long\<close> is the 64-bit type of the Linux targets that have \<^verbatim>\<open>/proc/self/stat\<close>.
  The product \<^verbatim>\<open>rss * page_size_kb\<close> is computed in \<^verbatim>\<open>long\<close>; the model writes the
  two's complement wrap-around out. Division of \<^verbatim>\<open>long\<close> values truncates towards zero
  (\<open>sdiv\<close>).
\<close>

definition LONG_MAX :: int where
  "LONG_MAX = 2 ^ 63 - 1"

definition LONG_MIN :: int where
  "LONG_MIN = - (2 ^ 63)"

definition wrap_long :: "int \<Rightarrow> int" where
  "wrap_long x = (x + 2 ^ 63) mod 2 ^ 64 - 2 ^ 63"

text \<open>
  \<^verbatim>\<open>resident_set\<close>, \<^verbatim>\<open>initial_rss\<close>, \<^verbatim>\<open>current_rss\<close> and \<^verbatim>\<open>diff_from_start\<close> are
  \<^verbatim>\<open>double\<close>s. Every value they take in these programs is an integer (a converted
  \<^verbatim>\<open>long\<close>, or the difference of two such), so a \<^verbatim>\<open>double\<close> is modelled by the integer
  it holds, and \<open>round_double\<close> is the rounding the conversion or the subtraction
  performs: to a 53-bit significand, to nearest, ties to even. Integers below \<open>2 ^ 53\<close>
  in magnitude are kept as they are.
\<close>

definition round_double :: "int \<Rightarrow> int" where
  "round_double x =
     (let a = \<bar>x\<bar> in
      if a < 2 ^ 53 then x
      else
        let e = nat (bitlen a) - 53;
            q = a div 2 ^ e;
            r = a mod 2 ^ e;
            h = 2 ^ (e - 1);
            m = (if h < r \<or> (r = h \<and> odd q) then q + 1 else q)
        in sgn x * (m * 2 ^ e))"

section \<open>Formatted input\<close>

text \<open>
  An input file stream: the characters not read yet and the two state bits the code
  depends on. A stream that could not be opened has \<open>failbit\<close> set.
\<close>

record istream =
  rdbuf :: string
  failbit :: bool
  eofbit :: bool

definition ifstream_open :: "string option \<Rightarrow> istream" where
  "ifstream_open src =
     (case src of
        None \<Rightarrow> \<lparr>rdbuf = [], failbit = True, eofbit = False\<rparr>
      | Some content \<Rightarrow> \<lparr>rdbuf = content, failbit = False, eofbit = False\<rparr>)"

text \<open>
  \<^verbatim>\<open>stream >> str\<close> for a \<^verbatim>\<open>std::string\<close>. The sentry fails on a stream that is not
  good, and when only white space is left; then the variable keeps its value \<open>v\<close>.
  Otherwise the variable receives the characters up to the next white space.
\<close>

definition extract_string :: "istream \<Rightarrow> string \<Rightarrow> istream \<times> string" where
  "extract_string s v =
     (if failbit s \<or> eofbit s then (s\<lparr>failbit := True\<rparr>, v)
      else
        let rest = dropWhile isspace (rdbuf s) in
        if rest = [] then (s\<lparr>rdbuf := [], failbit := True, eofbit := True\<rparr>, v)
        else
          let tok = takeWhile (\<lambda>c. \<not> isspace c) rest;
              rest' = dropWhile (\<lambda>c. \<not> isspace c) rest
          in (s\<lparr>rdbuf := rest', eofbit := (rest' = [])\<rparr>, tok))"

text \<open>A chain of \<open>n\<close> extractions into default-constructed (empty) strings.\<close>

fun extract_strings :: "nat \<Rightarrow> istream \<Rightarrow> istream \<times> string list" where
  "extract_strings 0 s = (s, [])"
| "extract_strings (Suc n) s =
     (let (s', v) = extract_string s [];
          (s'', vs) = extract_strings n s'
      in (s'', v # vs))"

text \<open>
  The numeric field that \<^verbatim>\<open>num_get\<close> accumulates for a \<^verbatim>\<open>long\<close>: an optional sign and
  decimal digits. \<open>None\<close> when there is no digit.
\<close>

definition num_get :: "string \<Rightarrow> int option \<times> string" where
  "num_get cs =
     (let (neg, r) =
            (case cs of
               [] \<Rightarrow> (False, [])
             | c # cs' \<Rightarrow>
                 if c = CHR ''-'' then (True, cs')
                 else if c = CHR ''+'' then (False, cs')
                 else (False, cs));
          ds = takeWhile isdigit r;
          rest = dropWhile isdigit r
      in if ds = [] then (None, rest)
         else (Some (if neg then - int (decimal ds) else int (decimal ds)), rest))"

text \<open>
  \<^verbatim>\<open>stream >> rss\<close> for a \<^verbatim>\<open>long\<close>. When the sentry fails the variable keeps its value
  \<open>v\<close>; a field without digits stores 0, a value out of range stores the nearest bound,
  and both set \<open>failbit\<close>.
\<close>

definition extract_long :: "istream \<Rightarrow> int \<Rightarrow> istream \<times> int" where
  "extract_long s v =
     (if failbit s \<or> eofbit s then (s\<lparr>failbit := True\<rparr>, v)
      else
        let rest = dropWhile isspace (rdbuf s) in
        if rest = [] then (s\<lparr>rdbuf := [], failbit := True, eofbit := True\<rparr>, v)
        else
          (case num_get rest of
             (None, rest') \<Rightarrow> (s\<lparr>rdbuf := rest', failbit := True, eofbit := (rest' = [])\<rparr>, 0)
           | (Some n, rest') \<Rightarrow>
               if LONG_MAX < n
               then (s\<lparr>rdbuf := rest', failbit := True, eofbit := (rest' = [])\<rparr>, LONG_MAX)
               else if n < LONG_MIN
               then (s\<lparr>rdbuf := rest', failbit := True, eofbit := (rest' = [])\<rparr>, LONG_MIN)
               else (s\<lparr>rdbuf := rest', eofbit := (rest' = [])\<rparr>, n)))"

section \<open>The RSS sampler\<close>

datatype error = AssertionFailed

text \<open>
  The extraction statement of \<^verbatim>\<open>get_current_rss_mb\<close>: 23 strings (\<^verbatim>\<open>temp_pid\<close>,
  \<^verbatim>\<open>comm\<close>, \<^verbatim>\<open>state\<close>, ..., \<^verbatim>\<open>vsize\<close>) and then \<^verbatim>\<open>rss\<close>. The result is the pair of
  \<^verbatim>\<open>state\<close> (the third string) and \<^verbatim>\<open>rss\<close>. The variable \<^verbatim>\<open>rss\<close> is declared without
  an initialiser; \<open>rss0\<close> is the indeterminate value it holds before the extraction.
  \<open>src\<close> is the content of \<^verbatim>\<open>/proc/self/stat\<close>, \<open>None\<close> when it cannot be opened.
\<close>

definition read_stat :: "int \<Rightarrow> string option \<Rightarrow> string \<times> int" where
  "read_stat rss0 src =
     (let stat_stream = ifstream_open src;
          (s1, vars) = extract_strings 23 stat_stream;
          (s2, rss) = extract_long s1 rss0
      in (vars ! 2, rss))"

text \<open>
  \<open>assert_off\<close> says whether the program was compiled with \<^verbatim>\<open>NDEBUG\<close>, that is, with
  \<^verbatim>\<open>assert\<close> disabled; \<open>sc_page_size\<close> is \<^verbatim>\<open>sysconf(_SC_PAGE_SIZE)\<close>. A failed assertion
  aborts the process. The quotient \<^verbatim>\<open>resident_set / 1024\<close> is exact in \<^verbatim>\<open>double\<close> and
  is truncated by the conversion to the \<^verbatim>\<open>long\<close> result.
\<close>

definition get_current_rss_mb :: "bool \<Rightarrow> int \<Rightarrow> int \<Rightarrow> string option \<Rightarrow> error + int" where
  "get_current_rss_mb assert_off sc_page_size rss0 src =
     (let (state, rss) = read_stat rss0 src in
      if \<not> assert_off \<and> state = [] then Inl AssertionFailed
      else
        let page_size_kb = sc_page_size sdiv 1024;
            resident_set = round_double (wrap_long (rss * page_size_kb))
        in Inr (resident_set sdiv 1024))"

section \<open>The status line as the specification describes it\<close>

text \<open>
  The specification speaks of the white-space separated fields of the status line.
  \<open>stat_fields\<close> follows those words; it is compared below with what the extraction
  statement reads.
\<close>

function stat_fields :: "string \<Rightarrow> string list" where
  "stat_fields s =
     (let r = dropWhile isspace s in
      if r = [] then []
      else takeWhile (\<lambda>c. \<not> isspace c) r # stat_fields (dropWhile (\<lambda>c. \<not> isspace c) r))"
  by pat_completeness auto

termination stat_fields
proof (relation "measure length")
  show "wf (measure length)"
    by simp
next
  fix s r :: string
  assume r: "r = dropWhile isspace s" and ne: "r \<noteq> []"
  from ne obtain x t where xt: "r = x # t"
    by (cases r) auto
  have "dropWhile isspace s = x # t"
    using r xt by simp
  then have "\<not> isspace x"
    using hd_dropWhile [of isspace s] by (metis list.sel(1) list.distinct(1))
  then have "dropWhile (\<lambda>c. \<not> isspace c) r = dropWhile (\<lambda>c. \<not> isspace c) t"
    using xt by simp
  moreover have "length (dropWhile (\<lambda>c. \<not> isspace c) t) \<le> length t"
    by (rule length_dropWhile_le)
  moreover have "length r \<le> length s"
    using length_dropWhile_le [of isspace s] r by simp
  ultimately show "(dropWhile (\<lambda>c. \<not> isspace c) r, s) \<in> measure length"
    using xt by simp
qed

declare stat_fields.simps [simp del]

text \<open>The value \<^verbatim>\<open>operator>>\<close> stores in a \<^verbatim>\<open>long\<close> when it reads the field \<open>tok\<close>.\<close>

definition long_of_field :: "string \<Rightarrow> int" where
  "long_of_field tok =
     (case fst (num_get tok) of
        None \<Rightarrow> 0
      | Some n \<Rightarrow> if LONG_MAX < n then LONG_MAX else if n < LONG_MIN then LONG_MIN else n)"


text \<open>
  A resident page count is a non-empty run of decimal digits; \<open>resident_mb\<close> is the
  specification's formula for a status line: page count times page size in KB, divided
  by 1024, in whole megabytes.
\<close>

definition is_page_count :: "string \<Rightarrow> bool" where
  "is_page_count tok \<longleftrightarrow> tok \<noteq> [] \<and> list_all isdigit tok"

definition resident_kb :: "int \<Rightarrow> string \<Rightarrow> int" where
  "resident_kb sc_page_size line = int (decimal (stat_fields line ! 23)) * (sc_page_size sdiv 1024)"

definition resident_mb :: "int \<Rightarrow> string \<Rightarrow> int" where
  "resident_mb sc_page_size line = resident_kb sc_page_size line div 1024"

definition stat_line_ok :: "int \<Rightarrow> string option \<Rightarrow> bool" where
  "stat_line_ok sc_page_size src =
     (case src of
        None \<Rightarrow> False
      | Some line \<Rightarrow>
          23 < length (stat_fields line) \<and> is_page_count (stat_fields line ! 23) \<and>
          resident_kb sc_page_size line < 2 ^ 53)"

section \<open>The process and its environment\<close>

text \<open>
  What the programs do not decide: the build (\<open>ndebug\<close>), the page size, the process
  id, what \<^verbatim>\<open>/proc/self/stat\<close> holds at the \<open>k\<close>-th sample (\<open>None\<close>: it cannot be
  opened), the indeterminate value of the uninitialised \<^verbatim>\<open>rss\<close> at that sample, and
  which paths the process may open for reading, open for writing (creating or
  truncating), and unlink; and, for each path, how many bytes the device has room for
  in the file written there.
\<close>

record platform =
  ndebug :: bool
  page_size :: int
  pid :: int
  proc_stat :: "nat \<Rightarrow> string option"
  rss_indeterminate :: "nat \<Rightarrow> int"
  may_read :: "string \<Rightarrow> bool"
  may_write :: "string \<Rightarrow> bool"
  may_unlink :: "string \<Rightarrow> bool"
  device_room :: "string \<Rightarrow> nat"

text \<open>
  What the programs change: the files, the number of RSS samples taken, the lines
  written to standard output and standard error, the addresses of the channels
  created, and the time slept.
\<close>

record world =
  files :: "string \<rightharpoonup> string"
  samples :: nat
  cout :: "string list"
  cerr :: "string list"
  channels :: "string list"
  slept_ms :: nat

definition ARBITRARY_FILE_SIZE :: nat where
  "ARBITRARY_FILE_SIZE = 50 * 1024 * 1024"

definition READ_SIZE :: nat where
  "READ_SIZE = 30 * 1024 * 1024"

definition WRITE_SIZE :: nat where
  "WRITE_SIZE = 30 * 1024 * 1024"

definition NUM_ITERATIONS :: nat where
  "NUM_ITERATIONS = 50"

text \<open>
  \<^verbatim>\<open>main\<close> sets \<^verbatim>\<open>std::fixed\<close> and \<^verbatim>\<open>std::setprecision(2)\<close> on \<^verbatim>\<open>std::cout\<close> before
  anything is printed. \<open>fixed2\<close> prints an integer-valued \<^verbatim>\<open>double\<close>; \<open>fixed2_mb\<close>
  prints \<^verbatim>\<open>size / (1024.0 * 1024.0)\<close>, rounded to two decimals, ties to even.
\<close>

definition fixed2 :: "int \<Rightarrow> string" where
  "fixed2 d = to_string d @ ''.00''"

definition fixed2_mb :: "nat \<Rightarrow> string" where
  "fixed2_mb sz =
     (let v = nat (round_double (int sz));
          q = (v * 100) div 2 ^ 20;
          r = (v * 100) mod 2 ^ 20;
          h = (if 2 ^ 19 < r \<or> (r = 2 ^ 19 \<and> odd q) then q + 1 else q)
      in string_of_nat (h div 100) @ ''.'' @ string_of_nat (h mod 100 div 10)
           @ string_of_nat (h mod 10))"

text \<open>One call of \<^verbatim>\<open>get_current_rss_mb\<close> by the running process.\<close>

definition sample_rss :: "platform \<Rightarrow> world \<Rightarrow> (error + int) \<times> world" where
  "sample_rss pf w =
     (get_current_rss_mb (ndebug pf) (page_size pf) (rss_indeterminate pf (samples w))
        (proc_stat pf (samples w)),
      w\<lparr>samples := Suc (samples w)\<rparr>)"

section \<open>The buffer workloads\<close>

text \<open>
  \<^verbatim>\<open>read_file\<close> returns nothing; the model returns the buffer and the number of bytes
  \<^verbatim>\<open>file.read\<close> stored in it, \<open>None\<close> when the function returned before allocating.
  The vector is value-initialised: every byte is zero before the read.
\<close>

definition read_file :: "platform \<Rightarrow> string \<Rightarrow> world \<Rightarrow> (string \<times> nat) option \<times> world" where
  "read_file pf file_path w =
     (case (if may_read pf file_path then files w file_path else None) of
        None \<Rightarrow>
          (None,
           w\<lparr>cerr := cerr w @ [''Error: File '' @ [CHR 0x27] @ file_path @ [CHR 0x27] @ '' not found.'']\<rparr>)
      | Some content \<Rightarrow>
          let data_buffer = replicate READ_SIZE (CHR 0x00);
              n = min READ_SIZE (length content)
          in (Some (take n content @ drop n data_buffer, n), w))"

text \<open>
  A write to an output file stream stores the bytes the device has room for; what does
  not fit is lost and the stream goes bad, which neither program tests.
\<close>

definition ofstream_write :: "nat \<Rightarrow> string \<Rightarrow> string \<Rightarrow> string" where
  "ofstream_write room outfile bytes = outfile @ take (room - length outfile) bytes"

text \<open>
  \<^verbatim>\<open>write_file\<close>: opening with \<^verbatim>\<open>trunc\<close> creates the file or empties it; the
  value-initialised buffer is then written, and the stream is closed without a test.
\<close>

definition write_file :: "platform \<Rightarrow> string \<Rightarrow> world \<Rightarrow> world" where
  "write_file pf file_path w =
     (if \<not> may_write pf file_path
      then w\<lparr>cerr := cerr w @ [''Error: File '' @ [CHR 0x27] @ file_path @ [CHR 0x27] @ '' not found.'']\<rparr>
      else
        let data_buffer = replicate WRITE_SIZE (CHR 0x00)
        in w\<lparr>files :=
             (files w)(file_path \<mapsto> ofstream_write (device_room pf file_path) [] data_buffer)\<rparr>)"

text \<open>\<^verbatim>\<open>std::remove\<close>: 0 when the file was unlinked, non-zero otherwise.\<close>

definition std_remove :: "platform \<Rightarrow> string \<Rightarrow> world \<Rightarrow> int \<times> world" where
  "std_remove pf file_path w =
     (if files w file_path \<noteq> None \<and> may_unlink pf file_path
      then (0, w\<lparr>files := (files w)(file_path := None)\<rparr>)
      else (- 1, w))"

section \<open>The driver loop\<close>

text \<open>
  The two files have the same \<^verbatim>\<open>trigger_mem\<close> but for the first step of the loop body,
  which the model takes as the parameter \<open>workload\<close>. The worker thread is joined before
  the body goes on, so its effect is that of a call. \<^verbatim>\<open>grpc::CreateChannel\<close> belongs to
  a library; the model records the address it is called with and nothing else. The loop
  counter \<open>i\<close> runs from 0. Exhausted resources (no memory for a buffer, no thread)
  are not modelled.
\<close>

definition trigger_iteration ::
  "platform \<Rightarrow> (world \<Rightarrow> world) \<Rightarrow> int \<Rightarrow> nat \<Rightarrow> world \<Rightarrow> (error + unit) \<times> world" where
  "trigger_iteration pf workload initial_rss i w =
     (let w1 = workload w;
          address = ''localhost:'' @ to_string (4000 + int i);
          w2 = w1\<lparr>channels := channels w1 @ [address]\<rparr>
      in case sample_rss pf w2 of
           (Inl e, w3) \<Rightarrow> (Inl e, w3)
         | (Inr r, w3) \<Rightarrow>
             let current_rss = round_double r;
                 diff_from_start = round_double (current_rss - initial_rss);
                 w4 = w3\<lparr>cout := cout w3 @
                   [''Iteration '' @ to_string (int i + 1) @ ''/'' @ to_string (int NUM_ITERATIONS)
                      @ '': '' @ ''Current RSS: '' @ fixed2 current_rss @ '' MB | ''
                      @ ''Total increase: +'' @ fixed2 diff_from_start @ '' MB'']\<rparr>
             in (Inr (), w4\<lparr>slept_ms := slept_ms w4 + 100\<rparr>))"

function trigger_loop ::
  "platform \<Rightarrow> (world \<Rightarrow> world) \<Rightarrow> int \<Rightarrow> nat \<Rightarrow> world \<Rightarrow> (error + unit) \<times> world" where
  "trigger_loop pf workload initial_rss i w =
     (if i < NUM_ITERATIONS then
        (case trigger_iteration pf workload initial_rss i w of
           (Inl e, w') \<Rightarrow> (Inl e, w')
         | (Inr u, w') \<Rightarrow> trigger_loop pf workload initial_rss (Suc i) w')
      else (Inr (), w))"
  by pat_completeness auto

termination trigger_loop
  by (relation "measure (\<lambda>(pf, workload, initial_rss, i, w). NUM_ITERATIONS - i)") auto

declare trigger_loop.simps [simp del]

definition trigger_mem :: "platform \<Rightarrow> (world \<Rightarrow> world) \<Rightarrow> world \<Rightarrow> (error + unit) \<times> world" where
  "trigger_mem pf workload w =
     (case sample_rss pf w of
        (Inl e, w1) \<Rightarrow> (Inl e, w1)
      | (Inr r, w1) \<Rightarrow>
          let initial_rss = round_double r;
              w2 = w1\<lparr>cout := cout w1 @
                [''PID: '' @ to_string (pid pf),
                 ''Initial RSS: '' @ fixed2 initial_rss @ '' MB'',
                 replicate 57 CHR ''-'']\<rparr>
          in trigger_loop pf workload initial_rss 0 w2)"

subsection \<open>The read variant\<close>

definition read_workload :: "platform \<Rightarrow> string \<Rightarrow> world \<Rightarrow> world" where
  "read_workload pf file_path w = snd (read_file pf file_path w)"

definition trigger_mem_read :: "platform \<Rightarrow> string \<Rightarrow> world \<Rightarrow> (error + unit) \<times> world" where
  "trigger_mem_read pf file_path w = trigger_mem pf (read_workload pf file_path) w"

text \<open>
  \<^verbatim>\<open>create_mock_file\<close> writes \<open>sz\<close> zero bytes in chunks of 1 MB, the last one
  shorter when \<open>sz\<close> is not a multiple.
\<close>

function write_chunks :: "nat \<Rightarrow> nat \<Rightarrow> nat \<Rightarrow> string \<Rightarrow> string" where
  "write_chunks room sz written outfile =
     (if written < sz then
        let write_size = min (1024 * 1024) (sz - written)
        in write_chunks room sz (written + 1024 * 1024)
             (ofstream_write room outfile (replicate write_size (CHR 0x00)))
      else outfile)"
  by pat_completeness auto

termination write_chunks
  by (relation "measure (\<lambda>(room, sz, written, outfile). sz - written)") auto

declare write_chunks.simps [simp del]

definition create_mock_file :: "platform \<Rightarrow> string \<Rightarrow> nat \<Rightarrow> world \<Rightarrow> world" where
  "create_mock_file pf file_path sz w =
     (let w1 = w\<lparr>cout := cout w @
                 [''Generating temporary file of size '' @ fixed2_mb sz @ '' MB...'']\<rparr>
      in if \<not> may_write pf file_path
         then w1\<lparr>cerr := cerr w1 @ [''Error: Could not create mock file at '' @ file_path]\<rparr>
         else
           let w2 = w1\<lparr>files := (files w1)(file_path \<mapsto>
                      write_chunks (device_room pf file_path) sz 0 [])\<rparr>
           in w2\<lparr>cout := cout w2 @ [''Mock file created at: '' @ file_path]\<rparr>)"

definition mock_file_path :: string where
  "mock_file_path = ''/tmp/tmp_mem_test_file''"

text \<open>The result of \<open>main\<close> is the exit code, or the abort of a failed assertion.\<close>

definition main_read :: "platform \<Rightarrow> world \<Rightarrow> (error + int) \<times> world" where
  "main_read pf w =
     (let w1 = create_mock_file pf mock_file_path ARBITRARY_FILE_SIZE w
      in case trigger_mem_read pf mock_file_path w1 of
           (Inl e, w2) \<Rightarrow> (Inl e, w2)
         | (Inr u, w2) \<Rightarrow>
             (case std_remove pf mock_file_path w2 of
                (rc, w3) \<Rightarrow>
                  if rc \<noteq> 0
                  then (Inr 0, w3\<lparr>cerr := cerr w3 @ [''Warning: Could not delete mock file.'']\<rparr>)
                  else (Inr 0, w3)))"

subsection \<open>The write variant\<close>

definition scratch_file_path :: string where
  "scratch_file_path = ''/tmp/test_file.txt''"

definition write_workload :: "platform \<Rightarrow> world \<Rightarrow> world" where
  "write_workload pf w =
     (case std_remove pf scratch_file_path w of
        (rc, w1) \<Rightarrow> write_file pf scratch_file_path w1)"

definition trigger_mem_write :: "platform \<Rightarrow> world \<Rightarrow> (error + unit) \<times> world" where
  "trigger_mem_write pf w = trigger_mem pf (write_workload pf) w"

definition main_write :: "platform \<Rightarrow> world \<Rightarrow> (error + int) \<times> world" where
  "main_write pf w =
     (case trigger_mem_write pf w of
        (Inl e, w1) \<Rightarrow> (Inl e, w1)
      | (Inr u, w1) \<Rightarrow> (Inr 0, w1))"


section \<open>Auxiliary notions and example inputs\<close>

text \<open>
  A stream on which no extraction has failed; once the end of the input was reached
  nothing is left to read.
\<close>

definition stream_ok :: "istream \<Rightarrow> bool" where
  "stream_ok s \<longleftrightarrow> \<not> failbit s \<and> (eofbit s \<longrightarrow> rdbuf s = [])"

text \<open>
  A status line as the kernel writes it (52 fields shortened to 27; 5000 resident
  pages, 12000000 bytes of virtual memory), the line of the same process when its name
  has a blank in place of the second hyphen, and a line whose fields are their own
  positions.
\<close>

definition example_line :: string where
  "example_line =
     ''4242 (test-mem-leak) S 1 4242 4242 0 -1 4194304 150 0 0 0 3 1 0 0 20 0 1 0 100 12000000 5000 18446744073709551615 1 1''"

definition blank_comm_line :: string where
  "blank_comm_line =
     ''4242 (test-mem leak) S 1 4242 4242 0 -1 4194304 150 0 0 0 3 1 0 0 20 0 1 0 100 12000000 5000 18446744073709551615 1 1''"

definition numbered_line :: string where
  "numbered_line =
     ''0 1 2 3 4 5 6 7 8 9 10 11 12 13 14 15 16 17 18 19 20 21 22 23 24 25''"

text \<open>
  The value the \<open>k\<close>-th call of \<^verbatim>\<open>get_current_rss_mb\<close> produces, whether its
  assertion holds, and the megabytes the specification's formula gives for the status
  line of that call.
\<close>

definition sample_value :: "platform \<Rightarrow> nat \<Rightarrow> error + int" where
  "sample_value pf k =
     get_current_rss_mb (ndebug pf) (page_size pf) (rss_indeterminate pf k) (proc_stat pf k)"

definition assert_passes :: "platform \<Rightarrow> nat \<Rightarrow> bool" where
  "assert_passes pf k \<longleftrightarrow>
     ndebug pf \<or> fst (read_stat (rss_indeterminate pf k) (proc_stat pf k)) \<noteq> []"

definition rss_mb_at :: "platform \<Rightarrow> nat \<Rightarrow> int" where
  "rss_mb_at pf k =
     (case proc_stat pf k of None \<Rightarrow> 0 | Some line \<Rightarrow> resident_mb (page_size pf) line)"

definition sampled :: "platform \<Rightarrow> nat \<Rightarrow> int" where
  "sampled pf k = (case sample_value pf k of Inl e \<Rightarrow> 0 | Inr r \<Rightarrow> r)"

text \<open>
  The line an iteration prints, as the loop body builds it from the value \<open>r\<close> of its
  sample, and as the specification gives it:
  \<^verbatim>\<open>Iteration <i>/<total>: Current RSS: <f> MB | Total increase: +<f> MB\<close>.
\<close>

definition printed_line :: "nat \<Rightarrow> int \<Rightarrow> int \<Rightarrow> string" where
  "printed_line i r initial_rss =
     ''Iteration '' @ to_string (int i + 1) @ ''/'' @ to_string (int NUM_ITERATIONS)
       @ '': '' @ ''Current RSS: '' @ fixed2 (round_double r) @ '' MB | ''
       @ ''Total increase: +'' @ fixed2 (round_double (round_double r - initial_rss)) @ '' MB''"

definition iteration_line :: "nat \<Rightarrow> int \<Rightarrow> int \<Rightarrow> string" where
  "iteration_line i current_rss delta =
     ''Iteration '' @ to_string (int i) @ ''/50: Current RSS: '' @ fixed2 current_rss
       @ '' MB | Total increase: +'' @ fixed2 delta @ '' MB''"

definition channel_address :: "nat \<Rightarrow> string" where
  "channel_address i = ''localhost:'' @ to_string (4000 + int i)"

text \<open>
  A Linux process whose status line never changes, that may access every path and
  has room for a terabyte; the same process where \<^verbatim>\<open>/proc/self/stat\<close> cannot be
  opened; that one built with \<^verbatim>\<open>NDEBUG\<close>, the uninitialised \<^verbatim>\<open>rss\<close> holding -5000;
  the process where no path can be opened for writing; where no path can be unlinked;
  where the device has room for 8 MB only; the state at program start; and that state
  with an old scratch file.
\<close>

definition linux_platform :: platform where
  "linux_platform =
     \<lparr>ndebug = False, page_size = 4096, pid = 4242,
      proc_stat = (\<lambda>k. Some example_line), rss_indeterminate = (\<lambda>k. 0),
      may_read = (\<lambda>p. True), may_write = (\<lambda>p. True), may_unlink = (\<lambda>p. True),
      device_room = (\<lambda>p. 1000000000000)\<rparr>"

definition no_proc_platform :: platform where
  "no_proc_platform = linux_platform\<lparr>proc_stat := (\<lambda>k. None)\<rparr>"

definition ndebug_no_proc_platform :: platform where
  "ndebug_no_proc_platform =
     linux_platform\<lparr>ndebug := True, proc_stat := (\<lambda>k. None),
       rss_indeterminate := (\<lambda>k. - 5000)\<rparr>"

definition read_only_platform :: platform where
  "read_only_platform = linux_platform\<lparr>may_write := (\<lambda>p. False)\<rparr>"

definition no_unlink_platform :: platform where
  "no_unlink_platform = linux_platform\<lparr>may_unlink := (\<lambda>p. False)\<rparr>"

definition full_device_platform :: platform where
  "full_device_platform = linux_platform\<lparr>device_room := (\<lambda>p. 8 * 1024 * 1024)\<rparr>"

definition initial_world :: world where
  "initial_world =
     \<lparr>files = Map.empty, samples = 0, cout = [], cerr = [], channels = [], slept_ms = 0\<rparr>"

definition old_scratch_world :: world where
  "old_scratch_world = initial_world\<lparr>files := [scratch_file_path \<mapsto> ''old'']\<rparr>"

section \<open>What the extraction statement reads\<close>

lemma extract_string_field:
  assumes "stream_ok s" and "stat_fields (rdbuf s) = t # ts"
  shows "\<exists>s'. extract_string s v = (s', t) \<and> stream_ok s' \<and> stat_fields (rdbuf s') = ts"
proof -
  from assms(2) have ne: "dropWhile isspace (rdbuf s) \<noteq> []"
    and t: "t = takeWhile (\<lambda>c. \<not> isspace c) (dropWhile isspace (rdbuf s))"
    and ts: "ts = stat_fields (dropWhile (\<lambda>c. \<not> isspace c) (dropWhile isspace (rdbuf s)))"
    by (auto simp: stat_fields.simps [of "rdbuf s"] Let_def split: if_splits)
  from ne have "rdbuf s \<noteq> []" by auto
  with assms(1) have good: "\<not> failbit s" "\<not> eofbit s"
    by (auto simp: stream_ok_def)
  show ?thesis
    using ne t ts good by (simp add: extract_string_def Let_def stream_ok_def)
qed

lemma extract_strings_fields:
  assumes "stream_ok s" and "n \<le> length (stat_fields (rdbuf s))"
  shows "\<exists>s'. extract_strings n s = (s', take n (stat_fields (rdbuf s))) \<and> stream_ok s'
            \<and> stat_fields (rdbuf s') = drop n (stat_fields (rdbuf s))"
  using assms
proof (induction n arbitrary: s)
  case 0
  then show ?case by simp
next
  case (Suc n)
  then obtain t ts where f: "stat_fields (rdbuf s) = t # ts"
    by (cases "stat_fields (rdbuf s)") auto
  from extract_string_field [OF Suc.prems(1) f, of "[]"]
  obtain s1 where s1: "extract_string s [] = (s1, t)" "stream_ok s1" "stat_fields (rdbuf s1) = ts"
    by blast
  from Suc.prems(2) f have "n \<le> length (stat_fields (rdbuf s1))"
    using s1(3) by simp
  from Suc.IH [OF s1(2) this]
  obtain s2 where s2: "extract_strings n s1 = (s2, take n ts)" "stream_ok s2"
      "stat_fields (rdbuf s2) = drop n ts"
    using s1(3) by auto
  show ?case
    using s1 s2 f by simp
qed

lemma isdigit_not_isspace: "isdigit c \<Longrightarrow> \<not> isspace c"
  by (auto simp: isdigit_def isspace_def)

lemma takeWhile_digit_field:
  "takeWhile isdigit (takeWhile (\<lambda>c. \<not> isspace c) r) = takeWhile isdigit r"
  by (induction r) (auto simp: isdigit_not_isspace)

lemma num_get_field:
  assumes "r \<noteq> []" and "\<not> isspace (hd r)"
  shows "fst (num_get (takeWhile (\<lambda>c. \<not> isspace c) r)) = fst (num_get r)"
proof -
  obtain c cs where r: "r = c # cs"
    using assms(1) by (cases r) auto
  with assms(2) have c: "\<not> isspace c" by simp
  show ?thesis
    using c by (simp add: r num_get_def Let_def takeWhile_digit_field split: prod.splits)
qed

lemma extract_long_field:
  assumes "stream_ok s" and "stat_fields (rdbuf s) = t # ts"
  shows "snd (extract_long s v) = long_of_field t"
proof -
  let ?r = "dropWhile isspace (rdbuf s)"
  from assms(2) have ne: "?r \<noteq> []"
    and t: "t = takeWhile (\<lambda>c. \<not> isspace c) ?r"
    by (auto simp: stat_fields.simps [of "rdbuf s"] Let_def split: if_splits)
  from ne have "rdbuf s \<noteq> []" by auto
  with assms(1) have good: "\<not> failbit s" "\<not> eofbit s"
    by (auto simp: stream_ok_def)
  have hd: "\<not> isspace (hd ?r)"
    using hd_dropWhile [OF ne] .
  have "fst (num_get t) = fst (num_get ?r)"
    unfolding t by (rule num_get_field [OF ne hd])
  then show ?thesis
    using ne good
    by (auto simp: extract_long_def long_of_field_def Let_def split: prod.splits option.splits)
qed

lemma read_stat_fields:
  assumes "23 < length (stat_fields line)"
  shows "read_stat rss0 (Some line) = (stat_fields line ! 2, long_of_field (stat_fields line ! 23))"
proof -
  let ?s = "ifstream_open (Some line)"
  have ok: "stream_ok ?s" and buf: "rdbuf ?s = line"
    by (simp_all add: ifstream_open_def stream_ok_def)
  from assms have "23 \<le> length (stat_fields (rdbuf ?s))"
    by (simp add: buf)
  from extract_strings_fields [OF ok this]
  obtain s1 where s1: "extract_strings 23 ?s = (s1, take 23 (stat_fields line))" "stream_ok s1"
      "stat_fields (rdbuf s1) = drop 23 (stat_fields line)"
    by (auto simp: buf)
  from assms have "drop 23 (stat_fields line) = stat_fields line ! 23 # drop 24 (stat_fields line)"
    using Cons_nth_drop_Suc [of 23 "stat_fields line"] by simp
  with s1(3) have "stat_fields (rdbuf s1) = stat_fields line ! 23 # drop 24 (stat_fields line)"
    by simp
  from extract_long_field [OF s1(2) this]
  have "snd (extract_long s1 rss0) = long_of_field (stat_fields line ! 23)" .
  moreover have "take 23 (stat_fields line) ! 2 = stat_fields line ! 2"
    by simp
  moreover obtain s2 r where "extract_long s1 rss0 = (s2, r)"
    by (cases "extract_long s1 rss0")
  ultimately show ?thesis
    using s1(1) by (simp add: read_stat_def)
qed

lemma fields_nonempty: "t \<in> set (stat_fields s) \<Longrightarrow> t \<noteq> []"
proof (induction s rule: stat_fields.induct)
  case (1 s)
  let ?r = "dropWhile isspace s"
  show ?case
  proof (cases "?r = []")
    case True
    with "1.prems" show ?thesis
      by (simp add: stat_fields.simps [of s])
  next
    case False
    then have "\<not> isspace (hd ?r)"
      by (rule hd_dropWhile)
    with False have "takeWhile (\<lambda>c. \<not> isspace c) ?r \<noteq> []"
      by (cases ?r) auto
    moreover have "stat_fields s = takeWhile (\<lambda>c. \<not> isspace c) ?r #
        stat_fields (dropWhile (\<lambda>c. \<not> isspace c) ?r)"
      using False by (simp add: stat_fields.simps [of s] Let_def)
    ultimately show ?thesis
      using "1.prems" "1.IH" [OF refl False] by auto
  qed
qed

lemma extract_string_failed:
  "failbit s \<Longrightarrow> extract_string s v = (s, v)"
  by (simp add: extract_string_def)

lemma extract_strings_failed:
  "failbit s \<Longrightarrow> extract_strings n s = (s, replicate n [])"
  by (induction n) (simp_all add: extract_string_failed)

lemma read_stat_unopened: "read_stat rss0 None = ([], rss0)"
proof -
  have f: "failbit (ifstream_open None)"
    by (simp add: ifstream_open_def)
  have "replicate 23 ([]::string) ! 2 = []"
    by simp
  then show ?thesis
    using f by (simp add: read_stat_def extract_strings_failed extract_long_def Let_def)
qed

lemma num_get_page_count:
  assumes "is_page_count t"
  shows "num_get t = (Some (int (decimal t)), [])"
proof -
  from assms obtain c cs where t: "t = c # cs" and c: "isdigit c" and cs: "list_all isdigit cs"
    by (cases t) (auto simp: is_page_count_def)
  from c have sign: "c \<noteq> CHR ''-''" "c \<noteq> CHR ''+''"
    by (auto simp: isdigit_def)
  have "takeWhile isdigit (c # cs) = c # cs" "dropWhile isdigit (c # cs) = []"
    using c cs by (simp_all add: list_all_iff)
  then show ?thesis
    using sign by (simp add: num_get_def t)
qed

lemma wrap_long_id: "- (2 ^ 63) \<le> x \<Longrightarrow> x < 2 ^ 63 \<Longrightarrow> wrap_long x = x"
  by (simp add: wrap_long_def)

lemma round_double_id: "\<bar>x\<bar> < 2 ^ 53 \<Longrightarrow> round_double x = x"
  by (simp add: round_double_def)

lemma sdiv_nonneg: "0 \<le> (a::int) \<Longrightarrow> 0 < b \<Longrightarrow> a sdiv b = a div b"
  by (simp add: signed_divide_int_def sgn_if)

lemma page_size_kb_nonneg: "0 \<le> (p::int) \<Longrightarrow> 0 \<le> p sdiv 1024"
  by (cases "p = 0") (simp_all add: signed_divide_int_def sgn_if pos_imp_zdiv_nonneg_iff)

lemma get_current_rss_mb_ok:
  assumes "stat_line_ok p (Some line)" and "0 \<le> p"
  shows "get_current_rss_mb a p rss0 (Some line) = Inr (resident_mb p line)"
proof -
  let ?t = "stat_fields line ! 23"
  let ?k = "p sdiv 1024"
  from assms(1) have len: "23 < length (stat_fields line)" and pc: "is_page_count ?t"
    and bound: "int (decimal ?t) * ?k < 2 ^ 53"
    by (simp_all add: stat_line_ok_def resident_kb_def)
  have k: "0 \<le> ?k"
    using assms(2) by (rule page_size_kb_nonneg)
  have "stat_fields line ! 2 \<in> set (stat_fields line)"
    using len by simp
  then have state: "stat_fields line ! 2 \<noteq> []"
    by (rule fields_nonempty)
  have prod: "long_of_field ?t * ?k = int (decimal ?t) * ?k"
  proof (cases "?k = 0")
    case True
    then show ?thesis by simp
  next
    case False
    with k have "1 \<le> ?k" by simp
    then have "int (decimal ?t) * 1 \<le> int (decimal ?t) * ?k"
      by (intro mult_left_mono) simp_all
    with bound have "int (decimal ?t) < 2 ^ 53" by simp
    then have "long_of_field ?t = int (decimal ?t)"
      by (simp add: long_of_field_def num_get_page_count [OF pc] LONG_MAX_def LONG_MIN_def)
    then show ?thesis by simp
  qed
  have nn: "0 \<le> int (decimal ?t) * ?k"
    using k by simp
  have w: "wrap_long (int (decimal ?t) * ?k) = int (decimal ?t) * ?k"
    using nn bound by (intro wrap_long_id) simp_all
  have r: "round_double (int (decimal ?t) * ?k) = int (decimal ?t) * ?k"
    using nn bound by (intro round_double_id) simp
  show ?thesis
    using state nn
    by (simp add: get_current_rss_mb_def read_stat_fields [OF len] prod w r sdiv_nonneg
        resident_mb_def resident_kb_def)
qed

lemma get_current_rss_mb_unopened:
  "get_current_rss_mb a p rss0 None =
     (if a then Inr (round_double (wrap_long (rss0 * (p sdiv 1024))) sdiv 1024)
      else Inl AssertionFailed)"
  by (simp add: get_current_rss_mb_def read_stat_unopened)


text \<open>The result of the sampler is an integer that a \<^verbatim>\<open>double\<close> holds exactly.\<close>

lemma round_double_magnitude:
  assumes lo: "2 ^ 53 \<le> \<bar>x\<bar>" and hi: "\<bar>x\<bar> < 2 ^ 63"
  shows "\<bar>round_double x\<bar> \<le> 2 ^ 63"
proof -
  define a where "a = \<bar>x\<bar>"
  define b where "b = nat (bitlen a)"
  define e where "e = b - 53"
  define q where "q = a div 2 ^ e"
  define r where "r = a mod 2 ^ e"
  define m where "m = (if 2 ^ (e - 1) < r \<or> (r = 2 ^ (e - 1) \<and> odd q) then q + 1 else q)"
  have pos: "0 < a" and lo': "2 ^ 53 \<le> a" and hi': "a < 2 ^ 63"
    using lo hi by (simp_all add: a_def)
  have "54 \<le> bitlen a"
    using lo' bitlen_ge_iff_power [of 54 a] by simp
  then have b54: "54 \<le> b"
    by (simp add: b_def)
  have "bitlen a \<le> 63"
    using hi' bitlen_le_iff_power [of a 63] by simp
  then have b63: "b \<le> 63"
    by (simp add: b_def)
  have split: "b = 53 + e"
    using b54 by (simp add: e_def)
  have "a < 2 ^ b"
    using bitlen_bounds [OF pos] by (simp add: b_def)
  then have upper: "a < 2 ^ 53 * 2 ^ e"
    by (simp only: split power_add)
  have "0 \<le> a mod 2 ^ e"
    by simp
  then have lower: "q * 2 ^ e \<le> a"
    using div_mult_mod_eq [of a "2 ^ e"] unfolding q_def by linarith
  have "q < 2 ^ 53"
  proof (rule ccontr)
    assume "\<not> q < 2 ^ 53"
    then have "2 ^ 53 \<le> q"
      by simp
    then have "2 ^ 53 * 2 ^ e \<le> q * 2 ^ e"
      by (intro mult_right_mono) simp_all
    with upper lower show False
      by linarith
  qed
  then have m_le: "m \<le> 2 ^ 53"
    by (simp add: m_def)
  have "0 \<le> q"
    using pos by (simp add: q_def pos_imp_zdiv_nonneg_iff)
  then have m_nn: "0 \<le> m"
    by (simp add: m_def)
  have "m * 2 ^ e \<le> 2 ^ 53 * 2 ^ e"
    using m_le by (intro mult_right_mono) simp_all
  also have "\<dots> = 2 ^ b"
    by (simp only: split power_add)
  also have "\<dots> \<le> (2::int) ^ 63"
    using b63 by (intro power_increasing) simp_all
  finally have le: "m * 2 ^ e \<le> 2 ^ 63" .
  have nn: "0 \<le> m * 2 ^ e"
    using m_nn by simp
  have "round_double x = sgn x * (m * 2 ^ e)"
    using lo by (simp add: round_double_def Let_def m_def r_def q_def e_def b_def a_def)
  then have "\<bar>round_double x\<bar> = m * 2 ^ e"
    using m_nn pos by (simp add: abs_mult abs_sgn_eq a_def)
  with le show ?thesis
    by simp
qed

lemma round_double_range:
  assumes "- (2 ^ 63) \<le> x" and "x < 2 ^ 63"
  shows "\<bar>round_double x\<bar> \<le> 2 ^ 63"
proof -
  consider "\<bar>x\<bar> < 2 ^ 53" | "x = - (2 ^ 63)" | "2 ^ 53 \<le> \<bar>x\<bar>" "\<bar>x\<bar> < 2 ^ 63"
    using assms by linarith
  then show ?thesis
  proof cases
    case 1
    then show ?thesis
      by (simp add: round_double_def)
  next
    case 2
    have "round_double (- (2 ^ 63)) = - (2 ^ 63)"
      by code_simp
    then show ?thesis
      by (simp add: 2)
  next
    case 3
    then show ?thesis
      by (rule round_double_magnitude)
  qed
qed

lemma wrap_long_range: "- (2 ^ 63) \<le> wrap_long x \<and> wrap_long x < 2 ^ 63"
  by (simp add: wrap_long_def)

lemma round_double_small: "\<bar>v\<bar> \<le> 2 ^ 53 \<Longrightarrow> round_double v = v"
proof -
  assume a: "\<bar>v\<bar> \<le> 2 ^ 53"
  have p: "round_double (2 ^ 53) = 2 ^ 53" and n: "round_double (- (2 ^ 53)) = - (2 ^ 53)"
    by code_simp+
  consider "\<bar>v\<bar> < 2 ^ 53" | "v = 2 ^ 53" | "v = - (2 ^ 53)"
    using a by linarith
  then show ?thesis
  proof cases
    case 1
    then show ?thesis
      by (simp add: round_double_def)
  next
    case 2
    then show ?thesis
      using p by simp
  next
    case 3
    then show ?thesis
      using n by simp
  qed
qed

lemma get_current_rss_mb_range:
  assumes "get_current_rss_mb a p r src = Inr v"
  shows "\<bar>v\<bar> \<le> 2 ^ 53"
proof -
  obtain st rss where rs: "read_stat r src = (st, rss)"
    by (cases "read_stat r src")
  let ?y = "round_double (wrap_long (rss * (p sdiv 1024)))"
  from assms have v: "v = ?y sdiv 1024"
    by (simp add: get_current_rss_mb_def rs Let_def split: if_splits)
  have "\<bar>?y\<bar> \<le> 2 ^ 63"
    using wrap_long_range [of "rss * (p sdiv 1024)"] by (intro round_double_range) simp_all
  then have "\<bar>?y\<bar> div 1024 \<le> 2 ^ 63 div 1024"
    by (rule zdiv_mono1) simp
  moreover have "\<bar>?y sdiv 1024\<bar> = \<bar>?y\<bar> div 1024"
    by (cases "?y = 0")
      (simp_all add: signed_divide_int_def abs_mult abs_sgn_eq pos_imp_zdiv_nonneg_iff)
  ultimately show ?thesis
    by (simp add: v)
qed

lemma long_of_field_vsize: "long_of_field ''12000000'' = 12000000"
  by (simp add: long_of_field_def num_get_def decimal_def digit_val_def isdigit_def
      LONG_MAX_def LONG_MIN_def)

section \<open>Properties of the sampler\<close>

text \<open>
  Three runs of the sampler on short inputs: fewer than three fields trip the assertion;
  with fewer than 24 fields \<^verbatim>\<open>rss\<close> keeps its indeterminate value (here 777 pages of
  4 KB). And the rounding of \<open>round_double\<close> beyond \<open>2 ^ 53\<close>.
\<close>

lemma get_current_rss_mb_short_line:
  "get_current_rss_mb False 4096 0 (Some ''1 (x)'') = Inl AssertionFailed \<and>
   get_current_rss_mb True 4096 777 (Some ''1 (x) S 4'') = Inr 3 \<and>
   get_current_rss_mb False 4096 777 (Some ''1 (x) S 4'') = Inr 3"
  by code_simp

lemma round_double_ties_to_even:
  "round_double (2 ^ 53 + 1) = 2 ^ 53 \<and> round_double (2 ^ 53 + 3) = 2 ^ 53 + 4 \<and>
   round_double (- (2 ^ 53) - 3) = - (2 ^ 53) - 4 \<and> round_double (2 ^ 63 - 1) = 2 ^ 63"
  by code_simp


text \<open>
  C1 (as amended). The claim places the resident page count at position 24, counted
  from 0. The extraction statement reads 23 strings before \<^verbatim>\<open>rss\<close>, so the value
  comes from the field at position 23 counted from 0, the 24th field. On the line whose
  fields are their own positions the value read is 23, while the field at position 24
  holds 24.
\<close>

theorem rss_position_24_counterexample:
  "snd (read_stat 0 (Some numbered_line)) = 23 \<and>
   long_of_field (stat_fields numbered_line ! 24) = 24"
  by code_simp

text \<open>
  C1, amended: for a status source with at least 24 white-space separated fields, the
  page count \<^verbatim>\<open>rss\<close> that \<^verbatim>\<open>get_current_rss_mb\<close> computes its result from is the value of
  the field at position 23 (counted from 0), and \<^verbatim>\<open>state\<close> is the field at position 2.
\<close>

theorem rss_is_field_23:
  assumes "23 < length (stat_fields line)"
  shows "read_stat rss0 (Some line) =
           (stat_fields line ! 2, long_of_field (stat_fields line ! 23)) \<and>
         get_current_rss_mb assert_off p rss0 (Some line) =
           Inr (round_double (wrap_long (long_of_field (stat_fields line ! 23) * (p sdiv 1024)))
                  sdiv 1024)"
proof -
  have "stat_fields line ! 2 \<in> set (stat_fields line)"
    using assms by simp
  then have "stat_fields line ! 2 \<noteq> []"
    by (rule fields_nonempty)
  then show ?thesis
    by (simp add: get_current_rss_mb_def read_stat_fields [OF assms])
qed

theorem rss_is_field_23_witness:
  "23 < length (stat_fields numbered_line) \<and>
   read_stat 0 (Some numbered_line) =
     (stat_fields numbered_line ! 2, long_of_field (stat_fields numbered_line ! 23))"
proof -
  have h: "23 < length (stat_fields numbered_line)"
    by code_simp
  show ?thesis
    using h rss_is_field_23 [OF h, of 0 False 4096] by simp
qed

text \<open>
  C2. The claim has \<^verbatim>\<open>get_current_rss_mb\<close> return quietly when the status source cannot
  be opened, and the doc comment of the function promises \<^verbatim>\<open>0.0 if unable to read\<close>.
  The code does otherwise. On the stream that was not opened no extraction stores
  anything: \<^verbatim>\<open>state\<close> stays empty and \<^verbatim>\<open>rss\<close> is never written. In the default build
  \<^verbatim>\<open>assert(!state.empty())\<close> then aborts the process; in a build with \<^verbatim>\<open>NDEBUG\<close> the
  result is computed from the indeterminate content of \<^verbatim>\<open>rss\<close>.
\<close>

theorem unopened_source_result:
  "get_current_rss_mb assert_off p rss0 None =
     (if assert_off then Inr (round_double (wrap_long (rss0 * (p sdiv 1024))) sdiv 1024)
      else Inl AssertionFailed)"
proof -
  have "failbit (ifstream_open None)"
    by (simp add: ifstream_open_def)
  then have "extract_strings 23 (ifstream_open None) = (ifstream_open None, replicate 23 [])"
    by (rule extract_strings_failed)
  moreover have "replicate 23 ([]::string) ! 2 = []"
    by simp
  ultimately have "read_stat rss0 None = ([], rss0)"
    by (simp add: read_stat_def extract_long_def ifstream_open_def)
  then show ?thesis
    by (simp add: get_current_rss_mb_def)
qed

theorem unopened_source_result_witness:
  "get_current_rss_mb False 4096 0 None = Inl AssertionFailed \<and>
   get_current_rss_mb True 4096 12345 None = Inr 48"
  using unopened_source_result [of False 4096 0] unopened_source_result [of True 4096 12345]
  by (simp add: wrap_long_def round_double_def signed_divide_int_def)

text \<open>
  C5. The claim has \<^verbatim>\<open>get_current_rss_mb\<close> return the resident page count times the
  page size in KB, divided by 1024, for every status source that can be opened. The
  code takes the page count from the 24th white-space separated field, and the kernel
  writes the name of the process, blanks included, as the second column. For the
  process of \<open>example_line\<close> (5000 resident pages of 4 KB, 19 MB) named with one blank,
  the 24th field is the size of the virtual memory in bytes and the page count is the
  25th: the result is 46875, not 19.
\<close>

theorem resident_memory_from_vsize:
  "stat_fields blank_comm_line ! 23 = ''12000000'' \<and>
   stat_fields blank_comm_line ! 24 = ''5000'' \<and>
   get_current_rss_mb False 4096 0 (Some blank_comm_line) = Inr 46875 \<and>
   get_current_rss_mb False 4096 0 (Some example_line) = Inr 19"
proof -
  have len: "23 < length (stat_fields blank_comm_line)"
    by code_simp
  have f: "stat_fields blank_comm_line ! 2 = ''leak)''"
      "stat_fields blank_comm_line ! 23 = ''12000000''"
      "stat_fields blank_comm_line ! 24 = ''5000''"
    by code_simp+
  have "get_current_rss_mb False 4096 0 (Some blank_comm_line) = Inr 46875"
    by (simp add: get_current_rss_mb_def read_stat_fields [OF len] f long_of_field_vsize
        wrap_long_def round_double_def signed_divide_int_def)
  moreover have "stat_line_ok 4096 (Some example_line)"
    by code_simp
  then have "get_current_rss_mb False 4096 0 (Some example_line) =
      Inr (resident_mb 4096 example_line)"
    by (rule get_current_rss_mb_ok) simp
  moreover have "resident_mb 4096 example_line = 19"
    by code_simp
  ultimately show ?thesis
    using f by simp
qed

text \<open>
  For a status source whose field at position 23 is a page count (a run of decimal
  digits) of a size in KB below \<open>2 ^ 53\<close>, the result is that count times the page size
  in KB, divided by 1024.
\<close>

lemma get_current_rss_mb_whole_megabytes:
  assumes "stat_line_ok sc_page_size (Some line)" and "0 \<le> sc_page_size"
  shows "get_current_rss_mb assert_off sc_page_size rss0 (Some line) =
           Inr (int (decimal (stat_fields line ! 23)) * (sc_page_size sdiv 1024) div 1024)"
  using get_current_rss_mb_ok [OF assms] by (simp add: resident_mb_def resident_kb_def)


section \<open>The driver loop, one iteration at a time\<close>

lemma sample_rss_eq:
  "sample_rss pf w = (sample_value pf (samples w), w\<lparr>samples := Suc (samples w)\<rparr>)"
  by (simp add: sample_rss_def sample_value_def)

lemma trigger_iteration_frame:
  "files (snd (trigger_iteration pf wl init i w)) = files (wl w)"
  "cerr (snd (trigger_iteration pf wl init i w)) = cerr (wl w)"
  "channels (snd (trigger_iteration pf wl init i w)) = channels (wl w) @ [channel_address i]"
  "samples (snd (trigger_iteration pf wl init i w)) = Suc (samples (wl w))"
  by (simp_all add: trigger_iteration_def sample_rss_eq channel_address_def Let_def
      split: sum.splits)

lemma trigger_iteration_outcome:
  "fst (trigger_iteration pf wl init i w) =
     (case sample_value pf (samples (wl w)) of Inl e \<Rightarrow> Inl e | Inr r \<Rightarrow> Inr ())"
  by (simp add: trigger_iteration_def sample_rss_eq Let_def split: sum.splits)

lemma trigger_iteration_Inr:
  assumes "sample_value pf (samples (wl w)) = Inr r"
  shows "fst (trigger_iteration pf wl init i w) = Inr ()"
    and "cout (snd (trigger_iteration pf wl init i w)) = cout (wl w) @ [printed_line i r init]"
    and "slept_ms (snd (trigger_iteration pf wl init i w)) = slept_ms (wl w) + 100"
  using assms
  by (simp_all add: trigger_iteration_def sample_rss_eq printed_line_def Let_def)

lemma trigger_iteration_Inl:
  assumes "sample_value pf (samples (wl w)) = Inl e"
  shows "fst (trigger_iteration pf wl init i w) = Inl e"
  using assms
  by (simp_all add: trigger_iteration_def sample_rss_eq Let_def)

lemma trigger_loop_ok:
  assumes frame: "\<And>w. samples (wl w) = samples w" "\<And>w. cout (wl w) = cout w"
      "\<And>w. channels (wl w) = channels w" "\<And>w. slept_ms (wl w) = slept_ms w"
    and ok: "\<And>k. k < NUM_ITERATIONS - i \<Longrightarrow> sample_value pf (samples w + k) = Inr (sampled pf (samples w + k))"
  shows "fst (trigger_loop pf wl init i w) = Inr () \<and>
         samples (snd (trigger_loop pf wl init i w)) = samples w + (NUM_ITERATIONS - i) \<and>
         channels (snd (trigger_loop pf wl init i w)) =
           channels w @ map channel_address [i..<NUM_ITERATIONS] \<and>
         slept_ms (snd (trigger_loop pf wl init i w)) = slept_ms w + 100 * (NUM_ITERATIONS - i) \<and>
         cout (snd (trigger_loop pf wl init i w)) =
           cout w @ map (\<lambda>j. printed_line j (sampled pf (samples w + (j - i))) init)
                      [i..<NUM_ITERATIONS]"
  using ok
proof (induction "NUM_ITERATIONS - i" arbitrary: i w)
  case 0
  then have "\<not> i < NUM_ITERATIONS"
    by simp
  then show ?case
    by (simp add: trigger_loop.simps [of pf wl init i w])
next
  case (Suc n)
  then have True: "i < NUM_ITERATIONS" and n: "n = NUM_ITERATIONS - Suc i"
    by simp_all
  let ?it = "trigger_iteration pf wl init i w"
  from True Suc.prems [of 0]
  have s0: "sample_value pf (samples (wl w)) = Inr (sampled pf (samples w))"
    by (simp add: frame)
  note itr = trigger_iteration_Inr [where pf = pf and wl = wl and w = w and init = init
      and i = i, OF s0]
  obtain w' where it: "?it = (Inr (), w')"
    using itr(1) by (cases ?it) auto
  then have w': "snd ?it = w'"
    by simp
  have sam: "samples w' = Suc (samples w)"
    using trigger_iteration_frame(4) [of pf wl init i w] by (simp add: w' frame)
  have post: "channels w' = channels w @ [channel_address i]"
      "cout w' = cout w @ [printed_line i (sampled pf (samples w)) init]"
      "slept_ms w' = slept_ms w + 100"
    using trigger_iteration_frame(3) [of pf wl init i w] itr(2,3) by (simp_all add: w' frame)
  have ok': "sample_value pf (samples w' + k) = Inr (sampled pf (samples w' + k))"
    if "k < NUM_ITERATIONS - Suc i" for k
    using Suc.prems [of "Suc k"] that by (simp add: sam)
  note IH = Suc.hyps(1) [OF n ok']
  have unfold: "trigger_loop pf wl init i w = trigger_loop pf wl init (Suc i) w'"
    using True it by (subst trigger_loop.simps) simp
  have range: "[i..<NUM_ITERATIONS] = i # [Suc i..<NUM_ITERATIONS]"
    using True by (simp add: upt_conv_Cons)
  have idx: "Suc (samples w + (j - Suc i)) = samples w + (j - i)"
    if "j \<in> set [Suc i..<NUM_ITERATIONS]" for j
    using that by auto
  have "map (\<lambda>j. printed_line j (sampled pf (samples w' + (j - Suc i))) init)
            [Suc i..<NUM_ITERATIONS]
      = map (\<lambda>j. printed_line j (sampled pf (samples w + (j - i))) init)
            [Suc i..<NUM_ITERATIONS]"
    by (rule map_cong) (simp_all add: sam idx del: set_upt)
  moreover have "NUM_ITERATIONS - i = Suc (NUM_ITERATIONS - Suc i)"
    using True by simp
  ultimately show ?case
    using IH by (simp add: unfold range sam post)
qed

lemma read_workload_frame:
  "samples (read_workload pf p w) = samples w"
  "cout (read_workload pf p w) = cout w"
  "channels (read_workload pf p w) = channels w"
  "slept_ms (read_workload pf p w) = slept_ms w"
  "files (read_workload pf p w) = files w"
  by (simp_all add: read_workload_def read_file_def Let_def split: option.splits)

lemma write_workload_frame:
  "samples (write_workload pf w) = samples w"
  "cout (write_workload pf w) = cout w"
  "channels (write_workload pf w) = channels w"
  "slept_ms (write_workload pf w) = slept_ms w"
  by (simp_all add: write_workload_def write_file_def std_remove_def Let_def)

lemma create_mock_file_frame:
  "samples (create_mock_file pf p n w) = samples w"
  "channels (create_mock_file pf p n w) = channels w"
  "slept_ms (create_mock_file pf p n w) = slept_ms w"
  by (simp_all add: create_mock_file_def Let_def)

lemma sample_value_passes:
  "assert_passes pf k \<Longrightarrow> sample_value pf k = Inr (sampled pf k)"
  by (auto simp: assert_passes_def sampled_def sample_value_def get_current_rss_mb_def Let_def
      split: prod.splits)

lemma sample_value_fails:
  "\<not> assert_passes pf k \<Longrightarrow> sample_value pf k = Inl AssertionFailed"
  by (auto simp: assert_passes_def sample_value_def get_current_rss_mb_def Let_def
      split: prod.splits)

lemma trigger_mem_ok:
  assumes frame: "\<And>w. samples (wl w) = samples w" "\<And>w. cout (wl w) = cout w"
      "\<And>w. channels (wl w) = channels w" "\<And>w. slept_ms (wl w) = slept_ms w"
    and ok: "\<And>k. k \<le> NUM_ITERATIONS \<Longrightarrow> assert_passes pf (samples w + k)"
  shows "fst (trigger_mem pf wl w) = Inr () \<and>
         samples (snd (trigger_mem pf wl w)) = samples w + Suc NUM_ITERATIONS \<and>
         channels (snd (trigger_mem pf wl w)) =
           channels w @ map channel_address [0..<NUM_ITERATIONS] \<and>
         slept_ms (snd (trigger_mem pf wl w)) = slept_ms w + 100 * NUM_ITERATIONS \<and>
         cout (snd (trigger_mem pf wl w)) =
           cout w @
           [''PID: '' @ to_string (pid pf),
            ''Initial RSS: '' @ fixed2 (round_double (sampled pf (samples w))) @ '' MB'',
            replicate 57 CHR ''-''] @
           map (\<lambda>j. printed_line j (sampled pf (samples w + Suc j))
                      (round_double (sampled pf (samples w))))
               [0..<NUM_ITERATIONS]"
proof -
  let ?init = "round_double (sampled pf (samples w))"
  let ?w2 = "w\<lparr>samples := Suc (samples w),
              cout := cout w @ [''PID: '' @ to_string (pid pf),
                ''Initial RSS: '' @ fixed2 ?init @ '' MB'', replicate 57 CHR ''-'']\<rparr>"
  have s0: "sample_value pf (samples w) = Inr (sampled pf (samples w))"
    using ok [of 0] by (simp add: sample_value_passes)
  have tm: "trigger_mem pf wl w = trigger_loop pf wl ?init 0 ?w2"
    by (simp add: trigger_mem_def sample_rss_eq s0 Let_def)
  have ok2: "sample_value pf (samples ?w2 + k) = Inr (sampled pf (samples ?w2 + k))"
    if "k < NUM_ITERATIONS - 0" for k
    using ok [of "Suc k"] that by (simp add: sample_value_passes)
  from trigger_loop_ok [of wl 0 pf ?w2 ?init, OF frame ok2]
  show ?thesis
    by (simp add: tm)
qed

lemma trigger_mem_abort:
  assumes "\<not> assert_passes pf (samples w)"
  shows "trigger_mem pf wl w = (Inl AssertionFailed, w\<lparr>samples := Suc (samples w)\<rparr>)"
  using assms by (simp add: trigger_mem_def sample_rss_eq sample_value_fails)

lemma to_string_NUM_ITERATIONS: "to_string (int NUM_ITERATIONS) = ''50''"
  by code_simp

lemma rss_mb_at_bounds:
  assumes "stat_line_ok (page_size pf) (proc_stat pf k)" and "0 \<le> page_size pf"
  shows "sample_value pf k = Inr (rss_mb_at pf k)" and "0 \<le> rss_mb_at pf k"
    and "rss_mb_at pf k < 2 ^ 53"
proof -
  from assms(1) obtain line where line: "proc_stat pf k = Some line"
    by (cases "proc_stat pf k") (auto simp: stat_line_ok_def)
  with assms(1) have ok: "stat_line_ok (page_size pf) (Some line)"
    by simp
  show "sample_value pf k = Inr (rss_mb_at pf k)"
    by (simp add: sample_value_def rss_mb_at_def line get_current_rss_mb_ok [OF ok assms(2)])
  have kb: "0 \<le> resident_kb (page_size pf) line" "resident_kb (page_size pf) line < 2 ^ 53"
    using ok page_size_kb_nonneg [OF assms(2)]
    by (simp_all add: stat_line_ok_def resident_kb_def)
  then show "0 \<le> rss_mb_at pf k"
    by (simp add: rss_mb_at_def line resident_mb_def pos_imp_zdiv_nonneg_iff)
  show "rss_mb_at pf k < 2 ^ 53"
    using kb by (simp add: rss_mb_at_def line resident_mb_def)
qed

lemma printed_line_eq:
  "printed_line j r init =
     iteration_line (Suc j) (round_double r) (round_double (round_double r - init))"
  by (simp add: printed_line_def iteration_line_def to_string_NUM_ITERATIONS add.commute)

lemma sampled_is_double:
  assumes "assert_passes pf k"
  shows "round_double (sampled pf k) = sampled pf k"
proof -
  from sample_value_passes [OF assms]
  have "get_current_rss_mb (ndebug pf) (page_size pf) (rss_indeterminate pf k) (proc_stat pf k)
      = Inr (sampled pf k)"
    by (simp add: sample_value_def)
  from get_current_rss_mb_range [OF this] show ?thesis
    by (rule round_double_small)
qed

lemma std_remove_frame:
  "samples (snd (std_remove pf p w)) = samples w"
  "channels (snd (std_remove pf p w)) = channels w"
  "slept_ms (snd (std_remove pf p w)) = slept_ms w"
  "cout (snd (std_remove pf p w)) = cout w"
  by (simp_all add: std_remove_def)

lemma main_write_ok:
  assumes "\<And>k. k \<le> NUM_ITERATIONS \<Longrightarrow> assert_passes pf (samples w + k)"
  shows "fst (main_write pf w) = Inr 0"
    and "snd (main_write pf w) = snd (trigger_mem pf (write_workload pf) w)"
proof -
  from trigger_mem_ok [where wl = "write_workload pf" and w = w and pf = pf, OF write_workload_frame assms]
  have "fst (trigger_mem pf (write_workload pf) w) = Inr ()"
    by simp
  then obtain w1 where "trigger_mem pf (write_workload pf) w = (Inr (), w1)"
    by (cases "trigger_mem pf (write_workload pf) w") auto
  then show "fst (main_write pf w) = Inr 0"
    and "snd (main_write pf w) = snd (trigger_mem pf (write_workload pf) w)"
    by (simp_all add: main_write_def trigger_mem_write_def)
qed

lemma main_read_ok:
  assumes "\<And>k. k \<le> NUM_ITERATIONS \<Longrightarrow> assert_passes pf (samples w + k)"
  shows "fst (main_read pf w) = Inr 0"
    and "slept_ms (snd (main_read pf w)) = slept_ms w + 100 * NUM_ITERATIONS"
    and "channels (snd (main_read pf w)) = channels w @ map channel_address [0..<NUM_ITERATIONS]"
    and "samples (snd (main_read pf w)) = samples w + Suc NUM_ITERATIONS"
proof -
  let ?w1 = "create_mock_file pf mock_file_path ARBITRARY_FILE_SIZE w"
  let ?tm = "trigger_mem pf (read_workload pf mock_file_path) ?w1"
  have ok: "assert_passes pf (samples ?w1 + k)" if "k \<le> NUM_ITERATIONS" for k
    using assms [OF that] by (simp add: create_mock_file_frame)
  from trigger_mem_ok [where wl = "read_workload pf mock_file_path" and w = ?w1 and pf = pf,
      OF read_workload_frame(1-4) ok]
  have tm: "fst ?tm = Inr ()" "slept_ms (snd ?tm) = slept_ms w + 100 * NUM_ITERATIONS"
    "channels (snd ?tm) = channels w @ map channel_address [0..<NUM_ITERATIONS]"
    "samples (snd ?tm) = samples w + Suc NUM_ITERATIONS"
    by (simp_all add: create_mock_file_frame)
  then obtain w2 where w2: "?tm = (Inr (), w2)"
    by (cases ?tm) auto
  obtain rc w3 where rm: "std_remove pf mock_file_path w2 = (rc, w3)"
    by (cases "std_remove pf mock_file_path w2")
  have w3: "slept_ms w3 = slept_ms w2" "channels w3 = channels w2" "samples w3 = samples w2"
    using std_remove_frame [of pf mock_file_path w2] by (simp_all add: rm)
  have mr: "main_read pf w = (Inr 0, if rc \<noteq> 0
      then w3\<lparr>cerr := cerr w3 @ [''Warning: Could not delete mock file.'']\<rparr> else w3)"
    by (simp add: main_read_def trigger_mem_read_def w2 rm)
  show "fst (main_read pf w) = Inr 0"
    by (simp add: mr)
  show "slept_ms (snd (main_read pf w)) = slept_ms w + 100 * NUM_ITERATIONS"
    using tm(2) by (simp add: mr w3 w2)
  show "channels (snd (main_read pf w)) = channels w @ map channel_address [0..<NUM_ITERATIONS]"
    using tm(3) by (simp add: mr w3 w2)
  show "samples (snd (main_read pf w)) = samples w + Suc NUM_ITERATIONS"
    using tm(4) by (simp add: mr w3 w2)
qed

lemma assert_fails_no_proc: "\<not> assert_passes no_proc_platform k"
  by (simp add: assert_passes_def no_proc_platform_def linux_platform_def read_stat_unopened)

lemma assert_passes_linux: "assert_passes linux_platform k"
proof -
  have "fst (read_stat 0 (Some example_line)) \<noteq> []"
    by code_simp
  then show ?thesis
    by (simp add: assert_passes_def linux_platform_def)
qed

lemma stat_ok_passes:
  assumes "stat_line_ok (page_size pf) (proc_stat pf k)" and "0 \<le> page_size pf"
  shows "assert_passes pf k" and "sampled pf k = rss_mb_at pf k"
proof -
  note v = rss_mb_at_bounds(1) [OF assms]
  show "assert_passes pf k"
    using v sample_value_fails [of pf k] by auto
  show "sampled pf k = rss_mb_at pf k"
    by (simp add: sampled_def v)
qed

lemma trigger_mem_lines:
  assumes frame: "\<And>w. samples (wl w) = samples w" "\<And>w. cout (wl w) = cout w"
      "\<And>w. channels (wl w) = channels w" "\<And>w. slept_ms (wl w) = slept_ms w"
    and pass: "\<And>k. k \<le> NUM_ITERATIONS \<Longrightarrow> assert_passes pf (samples w + k)"
  shows "cout (snd (trigger_mem pf wl w)) =
           cout w @
           [''PID: '' @ to_string (pid pf),
            ''Initial RSS: '' @ fixed2 (sampled pf (samples w)) @ '' MB'',
            replicate 57 CHR ''-''] @
           map (\<lambda>i. iteration_line i (sampled pf (samples w + i))
                      (round_double (sampled pf (samples w + i) - sampled pf (samples w))))
               [1..<51]"
proof -
  let ?init = "sampled pf (samples w)"
  have init: "round_double (sampled pf (samples w)) = ?init"
    using sampled_is_double [OF pass [of 0]] by simp
  have line: "printed_line j (sampled pf (samples w + Suc j)) ?init =
      iteration_line (Suc j) (sampled pf (samples w + Suc j))
        (round_double (sampled pf (samples w + Suc j) - ?init))"
    if "j < NUM_ITERATIONS" for j
  proof -
    from that have "Suc j \<le> NUM_ITERATIONS"
      by simp
    from sampled_is_double [OF pass [OF this]] show ?thesis
      by (simp only: printed_line_eq)
  qed
  have "map (\<lambda>j. printed_line j (sampled pf (samples w + Suc j)) ?init) [0..<NUM_ITERATIONS]
      = map (\<lambda>j. iteration_line (Suc j) (sampled pf (samples w + Suc j))
                    (round_double (sampled pf (samples w + Suc j) - ?init)))
            [0..<NUM_ITERATIONS]"
    by (rule map_cong) (simp_all add: line del: add_Suc_right)
  also have "\<dots> = map (\<lambda>i. iteration_line i (sampled pf (samples w + i))
                    (round_double (sampled pf (samples w + i) - ?init)))
                  (map Suc [0..<NUM_ITERATIONS])"
    by (simp add: comp_def)
  also have "map Suc [0..<NUM_ITERATIONS] = [1..<51]"
    by (simp add: map_Suc_upt NUM_ITERATIONS_def)
  finally have lines: "map (\<lambda>j. printed_line j (sampled pf (samples w + Suc j)) ?init)
        [0..<NUM_ITERATIONS]
      = map (\<lambda>i. iteration_line i (sampled pf (samples w + i))
                    (round_double (sampled pf (samples w + i) - ?init))) [1..<51]" .
  from trigger_mem_ok [where wl = wl and w = w and pf = pf, OF frame pass]
  have "cout (snd (trigger_mem pf wl w)) =
      cout w @
      [''PID: '' @ to_string (pid pf),
       ''Initial RSS: '' @ fixed2 (round_double (sampled pf (samples w))) @ '' MB'',
       replicate 57 CHR ''-''] @
      map (\<lambda>j. printed_line j (sampled pf (samples w + Suc j))
                 (round_double (sampled pf (samples w))))
          [0..<NUM_ITERATIONS]"
    by blast
  then show ?thesis
    by (simp only: init lines)
qed

lemma assert_passes_ndebug_no_proc: "assert_passes ndebug_no_proc_platform k"
  by (simp add: assert_passes_def ndebug_no_proc_platform_def linux_platform_def)

lemma sampled_ndebug_no_proc: "sampled ndebug_no_proc_platform k = - 19"
  by (simp add: sampled_def sample_value_def ndebug_no_proc_platform_def linux_platform_def
      get_current_rss_mb_unopened wrap_long_def round_double_def signed_divide_int_def)

lemma stat_ok_linux: "stat_line_ok (page_size linux_platform) (proc_stat linux_platform k)"
proof -
  have "stat_line_ok 4096 (Some example_line)"
    by code_simp
  then show ?thesis
    by (simp add: linux_platform_def)
qed

lemma rss_mb_at_linux: "rss_mb_at linux_platform k = 19"
proof -
  have "resident_mb 4096 example_line = 19"
    by code_simp
  then show ?thesis
    by (simp add: rss_mb_at_def linux_platform_def)
qed


lemma trigger_loop_abort:
  assumes frame: "\<And>w. samples (wl w) = samples w"
    and bad: "\<exists>k<NUM_ITERATIONS - i. \<not> assert_passes pf (samples w + k)"
  shows "fst (trigger_loop pf wl init i w) = Inl AssertionFailed"
  using bad
proof (induction "NUM_ITERATIONS - i" arbitrary: i w)
  case 0
  then show ?case
    by simp
next
  case (Suc n)
  then have less: "i < NUM_ITERATIONS" and n: "n = NUM_ITERATIONS - Suc i"
    by simp_all
  let ?it = "trigger_iteration pf wl init i w"
  show ?case
  proof (cases "assert_passes pf (samples w)")
    case False
    then have "sample_value pf (samples (wl w)) = Inl AssertionFailed"
      by (simp add: sample_value_fails frame)
    then have "fst ?it = Inl AssertionFailed"
      by (rule trigger_iteration_Inl)
    then obtain w' where "?it = (Inl AssertionFailed, w')"
      by (cases ?it) auto
    then show ?thesis
      using less by (subst trigger_loop.simps) simp
  next
    case True
    then have s0: "sample_value pf (samples (wl w)) = Inr (sampled pf (samples w))"
      by (simp add: sample_value_passes frame)
    note itr = trigger_iteration_Inr [where pf = pf and wl = wl and w = w and init = init
        and i = i, OF s0]
    obtain w' where it: "?it = (Inr (), w')"
      using itr(1) by (cases ?it) auto
    then have w': "snd ?it = w'"
      by simp
    have sam: "samples w' = Suc (samples w)"
      using trigger_iteration_frame(4) [of pf wl init i w] by (simp add: w' frame)
    from Suc.prems obtain k where k: "k < NUM_ITERATIONS - i"
        "\<not> assert_passes pf (samples w + k)"
      by blast
    with True have "k \<noteq> 0"
      by (cases k) auto
    then obtain k' where k': "k = Suc k'"
      by (cases k) auto
    with k have "k' < NUM_ITERATIONS - Suc i" "\<not> assert_passes pf (samples w' + k')"
      by (simp_all add: sam)
    then have "\<exists>k<NUM_ITERATIONS - Suc i. \<not> assert_passes pf (samples w' + k)"
      by blast
    from Suc.hyps(1) [OF n this]
    have "fst (trigger_loop pf wl init (Suc i) w') = Inl AssertionFailed" .
    then show ?thesis
      using less it by (subst trigger_loop.simps) simp
  qed
qed

lemma trigger_mem_abort_later:
  assumes frame: "\<And>w. samples (wl w) = samples w"
    and bad: "\<exists>k\<le>NUM_ITERATIONS. \<not> assert_passes pf (samples w + k)"
  shows "fst (trigger_mem pf wl w) = Inl AssertionFailed"
proof (cases "assert_passes pf (samples w)")
  case False
  then show ?thesis
    by (simp add: trigger_mem_abort)
next
  case True
  let ?init = "round_double (sampled pf (samples w))"
  let ?w2 = "w\<lparr>samples := Suc (samples w),
              cout := cout w @ [''PID: '' @ to_string (pid pf),
                ''Initial RSS: '' @ fixed2 ?init @ '' MB'', replicate 57 CHR ''-'']\<rparr>"
  have tm: "trigger_mem pf wl w = trigger_loop pf wl ?init 0 ?w2"
    using True by (simp add: trigger_mem_def sample_rss_eq sample_value_passes Let_def)
  from bad obtain k where k: "k \<le> NUM_ITERATIONS" "\<not> assert_passes pf (samples w + k)"
    by blast
  with True have "k \<noteq> 0"
    by (cases k) auto
  then obtain k' where "k = Suc k'"
    by (cases k) auto
  with k have "k' < NUM_ITERATIONS - 0" "\<not> assert_passes pf (samples ?w2 + k')"
    by simp_all
  then have "\<exists>k<NUM_ITERATIONS - 0. \<not> assert_passes pf (samples ?w2 + k)"
    by blast
  from trigger_loop_abort [where wl = wl, OF frame this] show ?thesis
    by (simp add: tm)
qed

lemma main_abort:
  assumes "\<exists>k\<le>NUM_ITERATIONS. \<not> assert_passes pf (samples w + k)"
  shows "fst (main_read pf w) = Inl AssertionFailed" and "fst (main_write pf w) = Inl AssertionFailed"
proof -
  let ?w1 = "create_mock_file pf mock_file_path ARBITRARY_FILE_SIZE w"
  have "\<exists>k\<le>NUM_ITERATIONS. \<not> assert_passes pf (samples ?w1 + k)"
    using assms by (simp add: create_mock_file_frame)
  from trigger_mem_abort_later [where wl = "read_workload pf mock_file_path",
      OF read_workload_frame(1) this]
  have "fst (trigger_mem pf (read_workload pf mock_file_path) ?w1) = Inl AssertionFailed" .
  then obtain w2 where "trigger_mem pf (read_workload pf mock_file_path) ?w1 =
      (Inl AssertionFailed, w2)"
    by (cases "trigger_mem pf (read_workload pf mock_file_path) ?w1") auto
  then show "fst (main_read pf w) = Inl AssertionFailed"
    by (simp add: main_read_def trigger_mem_read_def)
  from trigger_mem_abort_later [where wl = "write_workload pf", OF write_workload_frame(1) assms]
  have "fst (trigger_mem pf (write_workload pf) w) = Inl AssertionFailed" .
  then obtain w1 where "trigger_mem pf (write_workload pf) w = (Inl AssertionFailed, w1)"
    by (cases "trigger_mem pf (write_workload pf) w") auto
  then show "fst (main_write pf w) = Inl AssertionFailed"
    by (simp add: main_write_def trigger_mem_write_def)
qed


section \<open>Properties of the driver\<close>

text \<open>
  Where \<^verbatim>\<open>/proc/self/stat\<close> cannot be opened and assertions are enabled, the first
  sample, taken before the loop, aborts the process: no iteration runs, in either
  variant.
\<close>

lemma missing_proc_aborts_before_loop:
  "fst (main_write no_proc_platform initial_world) = Inl AssertionFailed \<and>
   slept_ms (snd (main_write no_proc_platform initial_world)) = 0 \<and>
   channels (snd (main_write no_proc_platform initial_world)) = [] \<and>
   fst (main_read no_proc_platform initial_world) = Inl AssertionFailed"
  by (simp add: main_write_def main_read_def trigger_mem_write_def trigger_mem_read_def
      trigger_mem_abort assert_fails_no_proc initial_world_def Let_def)

text \<open>
  C3. The claim has the loop always run 50 iterations and the program exit with code 0.
  The loop has no exit of its own, but every RSS sample, the baseline before the loop
  and one in each iteration, goes through \<^verbatim>\<open>assert(!state.empty())\<close> in
  \<^verbatim>\<open>get_current_rss_mb\<close>, where the doc comment of that function promises a quiet
  \<^verbatim>\<open>0.0\<close>. In both variants: when none of the 51 samples trips the assertion
  (assertions are disabled, or every status read yields a non-empty \<^verbatim>\<open>state\<close>), the
  loop runs exactly 50 iterations (50 channels created, 50 pauses of 100 ms) and
  \<open>main\<close> returns exit code 0, whatever the RSS values sampled; when one of them trips
  it, the process aborts and no exit code 0 is produced.
\<close>

theorem driver_completes_50_iterations:
  "((\<forall>k\<le>NUM_ITERATIONS. assert_passes pf (samples w + k)) \<longrightarrow>
      fst (main_read pf w) = Inr 0 \<and>
      slept_ms (snd (main_read pf w)) = slept_ms w + 50 * 100 \<and>
      length (channels (snd (main_read pf w))) = length (channels w) + 50 \<and>
      samples (snd (main_read pf w)) = samples w + 51 \<and>
      fst (main_write pf w) = Inr 0 \<and>
      slept_ms (snd (main_write pf w)) = slept_ms w + 50 * 100 \<and>
      length (channels (snd (main_write pf w))) = length (channels w) + 50 \<and>
      samples (snd (main_write pf w)) = samples w + 51) \<and>
   ((\<exists>k\<le>NUM_ITERATIONS. \<not> assert_passes pf (samples w + k)) \<longrightarrow>
      fst (main_read pf w) = Inl AssertionFailed \<and>
      fst (main_write pf w) = Inl AssertionFailed)"
proof (intro conjI impI)
  assume "\<exists>k\<le>NUM_ITERATIONS. \<not> assert_passes pf (samples w + k)"
  from main_abort [OF this]
  show "fst (main_read pf w) = Inl AssertionFailed" "fst (main_write pf w) = Inl AssertionFailed" .
next
  assume all: "\<forall>k\<le>NUM_ITERATIONS. assert_passes pf (samples w + k)"
  have ok: "assert_passes pf (samples w + k)" if "k \<le> NUM_ITERATIONS" for k
    using all that by simp
  note r = main_read_ok [of pf w, OF ok]
  note m = main_write_ok [of pf w, OF ok]
  note t = trigger_mem_ok [where wl = "write_workload pf" and w = w and pf = pf,
      OF write_workload_frame ok]
  show "fst (main_read pf w) = Inr 0"
    using r by simp
  show "slept_ms (snd (main_read pf w)) = slept_ms w + 50 * 100"
    using r by (simp add: NUM_ITERATIONS_def)
  show "length (channels (snd (main_read pf w))) = length (channels w) + 50"
    using r by (simp add: NUM_ITERATIONS_def)
  show "samples (snd (main_read pf w)) = samples w + 51"
    using r by (simp add: NUM_ITERATIONS_def)
  show "fst (main_write pf w) = Inr 0"
    using m by simp
  show "slept_ms (snd (main_write pf w)) = slept_ms w + 50 * 100"
    using m t by (simp add: NUM_ITERATIONS_def)
  show "length (channels (snd (main_write pf w))) = length (channels w) + 50"
    using m t by (simp add: NUM_ITERATIONS_def)
  show "samples (snd (main_write pf w)) = samples w + 51"
    using m t by (simp add: NUM_ITERATIONS_def)
qed

theorem driver_completes_50_iterations_witness:
  "fst (main_read no_proc_platform initial_world) = Inl AssertionFailed \<and>
   fst (main_write no_proc_platform initial_world) = Inl AssertionFailed \<and>
   fst (main_read linux_platform initial_world) = Inr 0 \<and>
   slept_ms (snd (main_read linux_platform initial_world)) = 5000 \<and>
   fst (main_write linux_platform initial_world) = Inr 0 \<and>
   slept_ms (snd (main_write linux_platform initial_world)) = 5000"
proof -
  have h: "\<forall>k\<le>NUM_ITERATIONS. assert_passes linux_platform (samples initial_world + k)"
    by (simp add: assert_passes_linux)
  have b: "\<exists>k\<le>NUM_ITERATIONS. \<not> assert_passes no_proc_platform (samples initial_world + k)"
    by (auto simp: assert_fails_no_proc)
  show ?thesis
    using h b driver_completes_50_iterations [of linux_platform initial_world]
      driver_completes_50_iterations [of no_proc_platform initial_world]
    by (simp add: initial_world_def)
qed

text \<open>
  C4. The claim has every iteration print a non-negative RSS and, as the increase, that
  RSS minus the baseline sampled once before the loop, with two decimals. In a run in
  which no sample aborts, the output of \<^verbatim>\<open>trigger_mem\<close> is the three header lines
  followed, for \<open>i\<close> from 1 to 50, by the line of iteration \<open>i\<close>; it shows the value of
  the \<open>i\<close>-th sample after the baseline and the \<^verbatim>\<open>double\<close> difference of that value and
  the baseline, which is their difference whenever that is at most \<open>2 ^ 53\<close> in
  magnitude. The value shown is the one \<^verbatim>\<open>get_current_rss_mb\<close> returned: non-negative
  where the sample read a status line with a page count, but any number where the
  sampler computed it from the uninitialised \<^verbatim>\<open>rss\<close>. The same holds for both variants.
\<close>

theorem iteration_lines_of_samples:
  assumes "\<forall>k\<le>NUM_ITERATIONS. assert_passes pf (samples w + k)"
  shows "cout (snd (trigger_mem_read pf path w)) =
           cout w @
           [''PID: '' @ to_string (pid pf),
            ''Initial RSS: '' @ fixed2 (sampled pf (samples w)) @ '' MB'',
            replicate 57 CHR ''-''] @
           map (\<lambda>i. iteration_line i (sampled pf (samples w + i))
                      (round_double (sampled pf (samples w + i) - sampled pf (samples w))))
               [1..<51] \<and>
         cout (snd (trigger_mem_write pf w)) =
           cout w @
           [''PID: '' @ to_string (pid pf),
            ''Initial RSS: '' @ fixed2 (sampled pf (samples w)) @ '' MB'',
            replicate 57 CHR ''-''] @
           map (\<lambda>i. iteration_line i (sampled pf (samples w + i))
                      (round_double (sampled pf (samples w + i) - sampled pf (samples w))))
               [1..<51] \<and>
         (\<forall>i\<in>{1..50}. \<bar>sampled pf (samples w + i) - sampled pf (samples w)\<bar> \<le> 2 ^ 53 \<longrightarrow>
            round_double (sampled pf (samples w + i) - sampled pf (samples w)) =
              sampled pf (samples w + i) - sampled pf (samples w)) \<and>
         (\<forall>i\<in>{1..50}. 0 \<le> page_size pf \<and>
              stat_line_ok (page_size pf) (proc_stat pf (samples w + i)) \<longrightarrow>
            sampled pf (samples w + i) = rss_mb_at pf (samples w + i) \<and>
            0 \<le> sampled pf (samples w + i))"
proof -
  have ok: "assert_passes pf (samples w + k)" if "k \<le> NUM_ITERATIONS" for k
    using assms that by simp
  have exact: "round_double (sampled pf (samples w + i) - sampled pf (samples w)) =
      sampled pf (samples w + i) - sampled pf (samples w)"
    if "\<bar>sampled pf (samples w + i) - sampled pf (samples w)\<bar> \<le> 2 ^ 53" for i
    using that by (rule round_double_small)
  have nonneg: "sampled pf (samples w + i) = rss_mb_at pf (samples w + i) \<and>
      0 \<le> sampled pf (samples w + i)"
    if "0 \<le> page_size pf" "stat_line_ok (page_size pf) (proc_stat pf (samples w + i))" for i
    using stat_ok_passes(2) [OF that(2,1)] rss_mb_at_bounds(2) [OF that(2,1)] by simp
  note rd = trigger_mem_lines [where wl = "read_workload pf path" and w = w and pf = pf,
      OF read_workload_frame(1-4) ok]
  note wr = trigger_mem_lines [where wl = "write_workload pf" and w = w and pf = pf,
      OF write_workload_frame ok]
  show ?thesis
  proof (intro conjI ballI impI)
    show "cout (snd (trigger_mem_read pf path w)) =
        cout w @
        [''PID: '' @ to_string (pid pf),
         ''Initial RSS: '' @ fixed2 (sampled pf (samples w)) @ '' MB'',
         replicate 57 CHR ''-''] @
        map (\<lambda>i. iteration_line i (sampled pf (samples w + i))
                   (round_double (sampled pf (samples w + i) - sampled pf (samples w))))
            [1..<51]"
      using rd by (simp only: trigger_mem_read_def)
    show "cout (snd (trigger_mem_write pf w)) =
        cout w @
        [''PID: '' @ to_string (pid pf),
         ''Initial RSS: '' @ fixed2 (sampled pf (samples w)) @ '' MB'',
         replicate 57 CHR ''-''] @
        map (\<lambda>i. iteration_line i (sampled pf (samples w + i))
                   (round_double (sampled pf (samples w + i) - sampled pf (samples w))))
            [1..<51]"
      using wr by (simp only: trigger_mem_write_def)
  next
    fix i
    assume "\<bar>sampled pf (samples w + i) - sampled pf (samples w)\<bar> \<le> 2 ^ 53"
    then show "round_double (sampled pf (samples w + i) - sampled pf (samples w)) =
        sampled pf (samples w + i) - sampled pf (samples w)"
      by (rule exact)
  next
    fix i
    assume a: "0 \<le> page_size pf \<and> stat_line_ok (page_size pf) (proc_stat pf (samples w + i))"
    then show "sampled pf (samples w + i) = rss_mb_at pf (samples w + i)"
      using nonneg [of i] by simp
    from a show "0 \<le> sampled pf (samples w + i)"
      using nonneg [of i] by simp
  qed
qed

theorem iteration_lines_of_samples_witness:
  "cout (snd (trigger_mem_write ndebug_no_proc_platform initial_world)) ! 3 =
     ''Iteration 1/50: Current RSS: -19.00 MB | Total increase: +0.00 MB'' \<and>
   cout (snd (trigger_mem_read ndebug_no_proc_platform mock_file_path initial_world)) ! 52 =
     ''Iteration 50/50: Current RSS: -19.00 MB | Total increase: +0.00 MB'' \<and>
   cout (snd (trigger_mem_write linux_platform initial_world)) ! 3 =
     ''Iteration 1/50: Current RSS: 19.00 MB | Total increase: +0.00 MB''"
proof -
  have h: "\<forall>k\<le>NUM_ITERATIONS.
      assert_passes ndebug_no_proc_platform (samples initial_world + k)"
    by (simp add: assert_passes_ndebug_no_proc)
  have g: "\<forall>k\<le>NUM_ITERATIONS. assert_passes linux_platform (samples initial_world + k)"
    by (simp add: assert_passes_linux)
  have "0 \<le> page_size linux_platform"
    by (simp add: linux_platform_def)
  then have s: "sampled linux_platform k = 19" for k
    using stat_ok_passes(2) [OF stat_ok_linux, of k] by (simp add: rss_mb_at_linux)
  have z: "round_double 0 = 0"
    by (simp add: round_double_def)
  have l1: "iteration_line (Suc 0) (- 19) 0 =
      ''Iteration 1/50: Current RSS: -19.00 MB | Total increase: +0.00 MB''"
    by code_simp
  have l50: "iteration_line 50 (- 19) 0 =
      ''Iteration 50/50: Current RSS: -19.00 MB | Total increase: +0.00 MB''"
    by code_simp
  have p1: "iteration_line (Suc 0) 19 0 =
      ''Iteration 1/50: Current RSS: 19.00 MB | Total increase: +0.00 MB''"
    by code_simp
  show ?thesis
    using iteration_lines_of_samples [OF h, of mock_file_path]
      iteration_lines_of_samples [OF g, of mock_file_path]
    by (simp add: sampled_ndebug_no_proc s z initial_world_def nth_append l1 l50 p1)
qed


section \<open>Properties of the workloads\<close>

lemma chunk_arith:
  fixes a r m :: nat
  shows "min r (min m a) + min (a - m) (r - min r (min m a)) = min a r"
  by (cases "m \<le> a"; cases "r \<le> m"; cases "r \<le> a") (auto simp: min_def)

lemma ofstream_write_zeros:
  "ofstream_write room outfile (replicate n (CHR 0x00)) =
     outfile @ replicate (min (room - length outfile) n) (CHR 0x00)"
  by (simp add: ofstream_write_def)

lemma write_chunks_zeros:
  "write_chunks room sz written outfile =
     outfile @ replicate (min (sz - written) (room - length outfile)) (CHR 0x00)"
proof (induction room sz written outfile rule: write_chunks.induct)
  case (1 room sz written outfile)
  show ?case
  proof (cases "written < sz")
    case False
    then show ?thesis
      by (simp add: write_chunks.simps [of room sz written outfile])
  next
    case True
    let ?ws = "min (1024 * 1024) (sz - written)"
    let ?k = "min (room - length outfile) ?ws"
    let ?out = "ofstream_write room outfile (replicate ?ws (CHR 0x00))"
    have out: "?out = outfile @ replicate ?k (CHR 0x00)"
      by (rule ofstream_write_zeros)
    have "write_chunks room sz written outfile =
        write_chunks room sz (written + 1024 * 1024) ?out"
      using True by (subst write_chunks.simps) (simp add: Let_def)
    also have "\<dots> = ?out @ replicate (min (sz - (written + 1024 * 1024))
        (room - length ?out)) (CHR 0x00)"
      using "1.IH" [OF True refl] .
    also have "\<dots> = outfile @ replicate (?k + min (sz - (written + 1024 * 1024))
        (room - (length outfile + ?k))) (CHR 0x00)"
      by (simp only: out) (simp add: replicate_add)
    also have "?k + min (sz - (written + 1024 * 1024)) (room - (length outfile + ?k)) =
        min (sz - written) (room - length outfile)"
      using chunk_arith [of "room - length outfile" "1024 * 1024" "sz - written"]
      by (simp only: diff_diff_left)
    finally show ?thesis .
  qed
qed

lemma mock_file_banner: "fixed2_mb ARBITRARY_FILE_SIZE = ''50.00''"
  by (simp add: fixed2_mb_def ARBITRARY_FILE_SIZE_def round_double_def string_of_nat.simps)

lemma create_mock_file_content:
  assumes "may_write pf p"
  shows "files (create_mock_file pf p sz w) p =
    Some (replicate (min sz (device_room pf p)) (CHR 0x00))"
  using assms by (simp add: create_mock_file_def Let_def write_chunks_zeros)

lemma read_file_full:
  assumes "may_read pf path" and "files w path = Some content" and "READ_SIZE \<le> length content"
  shows "read_file pf path w = (Some (take READ_SIZE content, READ_SIZE), w)"
  using assms by (simp add: read_file_def Let_def min_absorb1)

lemma read_file_missing:
  assumes "\<not> may_read pf path \<or> files w path = None"
  shows "read_file pf path w =
    (None, w\<lparr>cerr := cerr w @ [''Error: File '' @ [CHR 0x27] @ path @ [CHR 0x27] @ '' not found.'']\<rparr>)"
  using assms by (auto simp: read_file_def)

lemma write_workload_eq:
  "write_workload pf w = write_file pf scratch_file_path (snd (std_remove pf scratch_file_path w))"
  by (simp add: write_workload_def split: prod.splits)

lemma write_file_files:
  "may_write pf p \<Longrightarrow>
     files (write_file pf p w) p = Some (replicate (min WRITE_SIZE (device_room pf p)) (CHR 0x00))"
  "\<not> may_write pf p \<Longrightarrow> files (write_file pf p w) = files w"
  by (simp_all add: write_file_def ofstream_write_def min.commute)

lemma WRITE_SIZE_value: "WRITE_SIZE = 31457280"
  by (simp add: WRITE_SIZE_def)

lemma READ_SIZE_value: "READ_SIZE = 31457280"
  by (simp add: READ_SIZE_def)


lemma std_remove_files:
  "files w p = None \<or> may_unlink pf p \<Longrightarrow> files (snd (std_remove pf p w)) p = None"
  "cerr (snd (std_remove pf p w)) = cerr w"
  by (auto simp: std_remove_def)


text \<open>
  C6. In the read variant, when the fixture file can be opened and holds at least
  \<^verbatim>\<open>READ_SIZE\<close> bytes, \<^verbatim>\<open>read_file\<close> reads exactly \<^verbatim>\<open>READ_SIZE\<close> = 30 MB from it: the
  buffer, 30 MB long, holds the first 30 MB of the file. The call leaves the file as it
  is, and so does the rest of the iteration, so every later call finds the same file.
\<close>

theorem read_file_fills_buffer:
  assumes "may_read pf path" and "files w path = Some content" and "READ_SIZE \<le> length content"
  shows "read_file pf path w = (Some (take READ_SIZE content, READ_SIZE), w) \<and>
         length (take READ_SIZE content) = 30 * 1024 * 1024 \<and>
         READ_SIZE = 30 * 1024 * 1024 \<and>
         files (snd (trigger_iteration pf (read_workload pf path) init i w)) path = Some content"
  using assms
  by (simp add: read_file_full trigger_iteration_frame read_workload_frame READ_SIZE_value)

theorem read_file_fills_buffer_witness:
  "fst (read_file linux_platform mock_file_path
         (create_mock_file linux_platform mock_file_path ARBITRARY_FILE_SIZE initial_world)) =
     Some (replicate READ_SIZE (CHR 0x00), READ_SIZE)"
proof -
  let ?w = "create_mock_file linux_platform mock_file_path ARBITRARY_FILE_SIZE initial_world"
  let ?c = "replicate ARBITRARY_FILE_SIZE (CHR 0x00)"
  have h1: "may_read linux_platform mock_file_path"
    by (simp add: linux_platform_def)
  have "files ?w mock_file_path =
      Some (replicate (min ARBITRARY_FILE_SIZE (device_room linux_platform mock_file_path))
        (CHR 0x00))"
    by (rule create_mock_file_content) (simp add: linux_platform_def)
  then have h2: "files ?w mock_file_path = Some ?c"
    by (simp add: linux_platform_def ARBITRARY_FILE_SIZE_def)
  have h3: "READ_SIZE \<le> length ?c"
    by (simp add: READ_SIZE_def ARBITRARY_FILE_SIZE_def)
  have "take READ_SIZE ?c = replicate READ_SIZE (CHR 0x00)"
    by (simp add: READ_SIZE_def ARBITRARY_FILE_SIZE_def min_def)
  then show ?thesis
    using read_file_fills_buffer [OF h1 h2 h3, of 0 0] by simp
qed


text \<open>
  C9. When the fixture file is missing or cannot be read, \<^verbatim>\<open>read_file\<close> prints its error
  message and returns before a buffer exists. The iteration that called it has printed
  that message and nothing else on standard error, has left the files alone, and still
  creates its channel and takes its RSS sample; its outcome is that of the sample alone.
\<close>

theorem missing_fixture_not_fatal:
  assumes "\<not> may_read pf path \<or> files w path = None"
  shows "read_file pf path w =
           (None, w\<lparr>cerr := cerr w @
              [''Error: File '' @ [CHR 0x27] @ path @ [CHR 0x27] @ '' not found.'']\<rparr>) \<and>
         read_workload pf path w =
           w\<lparr>cerr := cerr w @
              [''Error: File '' @ [CHR 0x27] @ path @ [CHR 0x27] @ '' not found.'']\<rparr> \<and>
         cerr (snd (trigger_iteration pf (read_workload pf path) init i w)) =
           cerr w @ [''Error: File '' @ [CHR 0x27] @ path @ [CHR 0x27] @ '' not found.''] \<and>
         files (snd (trigger_iteration pf (read_workload pf path) init i w)) = files w \<and>
         channels (snd (trigger_iteration pf (read_workload pf path) init i w)) =
           channels w @ [''localhost:'' @ to_string (4000 + int i)] \<and>
         samples (snd (trigger_iteration pf (read_workload pf path) init i w)) =
           Suc (samples w) \<and>
         fst (trigger_iteration pf (read_workload pf path) init i w) =
           (case sample_value pf (samples w) of Inl e \<Rightarrow> Inl e | Inr r \<Rightarrow> Inr ())"
proof -
  have rf: "read_file pf path w =
      (None, w\<lparr>cerr := cerr w @
         [''Error: File '' @ [CHR 0x27] @ path @ [CHR 0x27] @ '' not found.'']\<rparr>)"
    using assms by (rule read_file_missing)
  then have rw: "read_workload pf path w =
      w\<lparr>cerr := cerr w @ [''Error: File '' @ [CHR 0x27] @ path @ [CHR 0x27] @ '' not found.'']\<rparr>"
    by (simp add: read_workload_def)
  have "cerr (snd (trigger_iteration pf (read_workload pf path) init i w)) =
      cerr (read_workload pf path w)"
    by (rule trigger_iteration_frame)
  then have "cerr (snd (trigger_iteration pf (read_workload pf path) init i w)) =
      cerr w @ [''Error: File '' @ [CHR 0x27] @ path @ [CHR 0x27] @ '' not found.'']"
    by (simp add: rw)
  then show ?thesis
    using rf rw
    by (simp add: trigger_iteration_frame trigger_iteration_outcome read_workload_frame
        channel_address_def)
qed

theorem missing_fixture_not_fatal_witness:
  "fst (read_file linux_platform mock_file_path initial_world) = None \<and>
   cerr (snd (trigger_iteration linux_platform (read_workload linux_platform mock_file_path)
       19 0 initial_world)) =
     [''Error: File '' @ [CHR 0x27] @ ''/tmp/tmp_mem_test_file'' @ [CHR 0x27] @ '' not found.''] \<and>
   channels (snd (trigger_iteration linux_platform (read_workload linux_platform mock_file_path)
       19 0 initial_world)) = [''localhost:4000''] \<and>
   fst (trigger_iteration linux_platform (read_workload linux_platform mock_file_path)
       19 0 initial_world) = Inr ()"
proof -
  have h: "\<not> may_read linux_platform mock_file_path \<or> files initial_world mock_file_path = None"
    by (simp add: initial_world_def)
  have a: "to_string 4000 = ''4000''"
    by (simp add: to_string_def string_of_nat.simps)
  have s: "sample_value linux_platform 0 = Inr (sampled linux_platform 0)"
    by (rule sample_value_passes) (rule assert_passes_linux)
  show ?thesis
    using missing_fixture_not_fatal [OF h, of 19 0]
    by (simp add: initial_world_def a s mock_file_path_def)
qed

text \<open>
  C8. Every iteration \<open>i\<close> creates exactly one channel, for the address made of
  \<^verbatim>\<open>localhost:\<close> and the decimal port \<open>4000 + i\<close>, in both variants; over a run in
  which no sample aborts, the channels created are those of ports 4000 to 4049, one
  each, in this order.
\<close>

theorem one_channel_per_iteration:
  "channels (snd (trigger_iteration pf (read_workload pf path) init i w)) =
     channels w @ [''localhost:'' @ to_string (4000 + int i)] \<and>
   channels (snd (trigger_iteration pf (write_workload pf) init i w)) =
     channels w @ [''localhost:'' @ to_string (4000 + int i)] \<and>
   ((\<forall>k\<le>NUM_ITERATIONS. assert_passes pf (samples w + k)) \<longrightarrow>
      channels (snd (trigger_mem_read pf path w)) =
        channels w @ map (\<lambda>i. ''localhost:'' @ to_string (4000 + int i)) [0..<50] \<and>
      channels (snd (trigger_mem_write pf w)) =
        channels w @ map (\<lambda>i. ''localhost:'' @ to_string (4000 + int i)) [0..<50])"
proof -
  have run: "channels (snd (trigger_mem_read pf path w)) =
        channels w @ map (\<lambda>i. ''localhost:'' @ to_string (4000 + int i)) [0..<50] \<and>
      channels (snd (trigger_mem_write pf w)) =
        channels w @ map (\<lambda>i. ''localhost:'' @ to_string (4000 + int i)) [0..<50]"
    if "\<forall>k\<le>NUM_ITERATIONS. assert_passes pf (samples w + k)"
  proof -
    have ok: "assert_passes pf (samples w + k)" if "k \<le> NUM_ITERATIONS" for k
      using \<open>\<forall>k\<le>NUM_ITERATIONS. assert_passes pf (samples w + k)\<close> that by simp
    have addr: "channel_address = (\<lambda>i. ''localhost:'' @ to_string (4000 + int i))"
      by (rule ext) (simp add: channel_address_def)
    show ?thesis
      using trigger_mem_ok [where wl = "read_workload pf path" and w = w and pf = pf,
          OF read_workload_frame(1-4) ok]
        trigger_mem_ok [where wl = "write_workload pf" and w = w and pf = pf,
          OF write_workload_frame ok]
      by (simp add: trigger_mem_read_def trigger_mem_write_def addr NUM_ITERATIONS_def)
  qed
  then show ?thesis
    by (simp add: trigger_iteration_frame read_workload_frame write_workload_frame
        channel_address_def)
qed

theorem one_channel_per_iteration_witness:
  "channels (snd (trigger_iteration linux_platform (write_workload linux_platform) 19 7
      initial_world)) = [''localhost:4007''] \<and>
   length (channels (snd (trigger_mem_write linux_platform initial_world))) = 50 \<and>
   channels (snd (trigger_mem_write linux_platform initial_world)) ! 0 = ''localhost:4000'' \<and>
   channels (snd (trigger_mem_read linux_platform mock_file_path initial_world)) ! 49 =
     ''localhost:4049''"
proof -
  have h: "\<forall>k\<le>NUM_ITERATIONS. assert_passes linux_platform (samples initial_world + k)"
    by (simp add: assert_passes_linux)
  have a: "to_string 4007 = ''4007''" "to_string 4000 = ''4000''" "to_string 4049 = ''4049''"
    by (simp_all add: to_string_def string_of_nat.simps)
  have c: "channels initial_world = []"
    by (simp add: initial_world_def)
  show ?thesis
    using h one_channel_per_iteration [of linux_platform mock_file_path 19 7 initial_world]
      one_channel_per_iteration [of linux_platform mock_file_path 19 0 initial_world]
    by (simp add: a c)
qed


text \<open>
  C7 (as amended). The claim says that the path is deleted before each write and that
  after each iteration the scratch file exists with 30 MB. Three runs of the first
  iteration show otherwise. Where the path cannot be unlinked, \<^verbatim>\<open>std::remove\<close> fails,
  its result is ignored, and the old file is still there when \<^verbatim>\<open>write_file\<close> opens it.
  Where the path cannot be opened for writing, \<^verbatim>\<open>write_file\<close> prints its error message
  and returns: starting without the file, the iteration ends without it. Where the
  device has room for 8 MB, the unchecked write leaves a file of 8 MB.
\<close>

theorem scratch_file_counterexample:
  "files (snd (std_remove no_unlink_platform scratch_file_path old_scratch_world))
     scratch_file_path = Some ''old'' \<and>
   files (snd (trigger_iteration read_only_platform (write_workload read_only_platform) 0 0
      initial_world)) scratch_file_path = None \<and>
   files (snd (trigger_iteration full_device_platform (write_workload full_device_platform) 0 0
      initial_world)) scratch_file_path = Some (replicate 8388608 (CHR 0x00))"
  by (simp add: trigger_iteration_frame write_workload_eq write_file_files std_remove_files
      std_remove_def read_only_platform_def no_unlink_platform_def full_device_platform_def
      linux_platform_def initial_world_def old_scratch_world_def WRITE_SIZE_def)

text \<open>
  C7, amended: in the write variant each iteration calls \<^verbatim>\<open>std::remove\<close> on the target
  path before \<^verbatim>\<open>write_file\<close> and ignores the result, so the path is absent at the time
  of the write when it was absent before or may be unlinked. After each iteration in
  which the path can be opened for writing and the device has room for the buffer, the
  scratch file exists with size exactly 30 MB. Where the path cannot be opened,
  \<^verbatim>\<open>write_file\<close> prints an error message and the files stay as \<^verbatim>\<open>std::remove\<close> left
  them.
\<close>

theorem scratch_file_recreated:
  "write_workload pf w =
     write_file pf scratch_file_path (snd (std_remove pf scratch_file_path w)) \<and>
   (files w scratch_file_path = None \<or> may_unlink pf scratch_file_path \<longrightarrow>
      files (snd (std_remove pf scratch_file_path w)) scratch_file_path = None) \<and>
   (may_write pf scratch_file_path \<and> WRITE_SIZE \<le> device_room pf scratch_file_path \<longrightarrow>
      (\<exists>c. files (snd (trigger_iteration pf (write_workload pf) init i w)) scratch_file_path =
             Some c \<and> length c = 30 * 1024 * 1024)) \<and>
   (\<not> may_write pf scratch_file_path \<longrightarrow>
      files (snd (trigger_iteration pf (write_workload pf) init i w)) =
        files (snd (std_remove pf scratch_file_path w)) \<and>
      cerr (snd (trigger_iteration pf (write_workload pf) init i w)) =
        cerr w @ [''Error: File '' @ [CHR 0x27] @ scratch_file_path @ [CHR 0x27] @ '' not found.''])"
proof -
  have "cerr (write_file pf scratch_file_path (snd (std_remove pf scratch_file_path w))) =
      cerr w @ [''Error: File '' @ [CHR 0x27] @ scratch_file_path @ [CHR 0x27] @ '' not found.'']"
    if "\<not> may_write pf scratch_file_path"
    using that by (simp add: write_file_def std_remove_files)
  moreover have "min WRITE_SIZE (device_room pf scratch_file_path) = 30 * 1024 * 1024"
    if "WRITE_SIZE \<le> device_room pf scratch_file_path"
    using that by (simp add: WRITE_SIZE_def)
  ultimately show ?thesis
    by (simp add: trigger_iteration_frame write_workload_eq write_file_files std_remove_files
        WRITE_SIZE_value)
qed

theorem scratch_file_recreated_witness:
  "\<exists>c. files (snd (trigger_iteration linux_platform (write_workload linux_platform) 19 0
           initial_world)) scratch_file_path = Some c \<and> length c = 31457280"
proof -
  have "may_write linux_platform scratch_file_path \<and>
      WRITE_SIZE \<le> device_room linux_platform scratch_file_path"
    by (simp add: linux_platform_def WRITE_SIZE_def)
  then show ?thesis
    using scratch_file_recreated [of linux_platform initial_world 19 0] by simp
qed

text \<open>
  C10. The buffer of \<^verbatim>\<open>write_file\<close> is value-initialised, so after every iteration
  whose write succeeds (the path can be opened and the device has room for the buffer)
  the scratch file consists of exactly 30 MB of zero bytes; and whatever the room, a
  file that was opened holds zero bytes only.
\<close>

theorem scratch_file_zero_bytes:
  assumes "may_write pf scratch_file_path"
  shows "(WRITE_SIZE \<le> device_room pf scratch_file_path \<longrightarrow>
            files (write_file pf scratch_file_path w) scratch_file_path =
              Some (replicate WRITE_SIZE (CHR 0x00)) \<and>
            files (snd (trigger_iteration pf (write_workload pf) init i w)) scratch_file_path =
              Some (replicate (30 * 1024 * 1024) (CHR 0x00))) \<and>
         WRITE_SIZE = 30 * 1024 * 1024 \<and>
         files (snd (trigger_iteration pf (write_workload pf) init i w)) scratch_file_path =
           Some (replicate (min (30 * 1024 * 1024) (device_room pf scratch_file_path))
                   (CHR 0x00))"
proof -
  have "min WRITE_SIZE (device_room pf scratch_file_path) = WRITE_SIZE"
    if "WRITE_SIZE \<le> device_room pf scratch_file_path"
    using that by simp
  then show ?thesis
    using assms
    by (auto simp: trigger_iteration_frame write_workload_eq write_file_files WRITE_SIZE_value)
qed

theorem scratch_file_zero_bytes_witness:
  "files (snd (trigger_iteration linux_platform (write_workload linux_platform) 19 0
      initial_world)) scratch_file_path = Some (replicate 31457280 (CHR 0x00))"
proof -
  have h: "may_write linux_platform scratch_file_path"
    by (simp add: linux_platform_def)
  have r: "WRITE_SIZE \<le> device_room linux_platform scratch_file_path"
    by (simp add: linux_platform_def WRITE_SIZE_def)
  show ?thesis
    using r scratch_file_zero_bytes [OF h, of initial_world 19 0] by simp
qed

end
